theory Spec2Isabelle
  imports Complex_Main
begin

section \<open>Dataset Loader (script-v2.js, lines 50-135)\<close>

text \<open>
  The payload of \<^verbatim>\<open>data.json\<close> after \<^verbatim>\<open>response.json()\<close> is a JavaScript value.
  \<open>Obj\<close> lists the own properties of an object, one entry per key; \<open>Undefined\<close> is what
  reading a missing property gives. Numbers are modelled as reals (only being zero or
  not matters to the loader).
\<close>

datatype jsval =
    Undefined
  | Null
  | Bool bool
  | Num real
  | Str string
  | Arr "jsval list"
  | Obj "(string \<times> jsval) list"

text \<open>
  \<open>TypeError\<close> is what reading a property of \<^verbatim>\<open>null\<close> or \<^verbatim>\<open>undefined\<close> throws;
  \<open>ReferenceError\<close> is what calling an undeclared function throws;
  \<open>Error m\<close> is \<^verbatim>\<open>new Error(m)\<close>; \<open>LoadError e\<close> is the error rethrown by
  \<^verbatim>\<open>loadFoodSystemData\<close>: \<^verbatim>\<open>new Error('Error loading data.json: ' + e.message)\<close>.
\<close>

datatype error = TypeError | ReferenceError | Error string | LoadError error

text \<open>JavaScript truthiness, as used by \<^verbatim>\<open>!v\<close> and \<^verbatim>\<open>a && b\<close>.\<close>

fun truthy :: "jsval \<Rightarrow> bool" where
  "truthy Undefined = False"
| "truthy Null = False"
| "truthy (Bool b) = b"
| "truthy (Num r) = (r \<noteq> 0)"
| "truthy (Str s) = (s \<noteq> [])"
| "truthy (Arr _) = True"
| "truthy (Obj _) = True"

text \<open>\<^verbatim>\<open>typeof v === 'object'\<close>: true of objects, arrays and \<^verbatim>\<open>null\<close>.\<close>

fun typeofObject :: "jsval \<Rightarrow> bool" where
  "typeofObject Null = True"
| "typeofObject (Arr _) = True"
| "typeofObject (Obj _) = True"
| "typeofObject _ = False"

fun isArray :: "jsval \<Rightarrow> bool" where
  "isArray (Arr _) = True"
| "isArray _ = False"

text \<open>
  Reading property \<open>k\<close> of a value, for the keys the loader reads (\<^verbatim>\<open>nodes\<close>,
  \<^verbatim>\<open>links\<close>, \<^verbatim>\<open>id\<close>, \<^verbatim>\<open>group\<close>, \<^verbatim>\<open>label\<close>, \<^verbatim>\<open>source\<close>, \<^verbatim>\<open>target\<close>, \<^verbatim>\<open>type\<close>,
  \<^verbatim>\<open>examples\<close>): none of them is a property of the prototypes of arrays, strings,
  numbers or booleans, so only an object can hold one.
\<close>

fun getProp :: "jsval \<Rightarrow> string \<Rightarrow> error + jsval" where
  "getProp Undefined k = Inl TypeError"
| "getProp Null k = Inl TypeError"
| "getProp (Obj kvs) k = (case map_of kvs k of None \<Rightarrow> Inr Undefined | Some v \<Rightarrow> Inr v)"
| "getProp _ k = Inr Undefined"

text \<open>\<^verbatim>\<open>!v.k\<close>: the property read may throw, otherwise the negated truthiness.\<close>

definition falsyProp :: "jsval \<Rightarrow> string \<Rightarrow> error + bool" where
  "falsyProp v k = (case getProp v k of Inl e \<Rightarrow> Inl e | Inr x \<Rightarrow> Inr (\<not> truthy x))"

text \<open>
  \<^verbatim>\<open>!v.a || !v.b || !v.c\<close>, evaluated left to right with short circuit.
\<close>

definition missingAny :: "jsval \<Rightarrow> string \<Rightarrow> string \<Rightarrow> string \<Rightarrow> error + bool" where
  "missingAny v a b c =
     (case falsyProp v a of Inl e \<Rightarrow> Inl e
      | Inr True \<Rightarrow> Inr True
      | Inr False \<Rightarrow>
          (case falsyProp v b of Inl e \<Rightarrow> Inl e
           | Inr True \<Rightarrow> Inr True
           | Inr False \<Rightarrow> falsyProp v c))"

text \<open>
  \<^verbatim>\<open>validateDataStructure(data)\<close> (lines 94-135). The checks are in the source's order;
  \<^verbatim>\<open>data.nodes[0]\<close> is read only after the array was found non-empty.
\<close>

definition validateDataStructure :: "jsval \<Rightarrow> error + bool" where
  "validateDataStructure data =
     (if \<not> truthy data \<or> \<not> typeofObject data then Inr False
      else case getProp data ''nodes'' of Inl e \<Rightarrow> Inl e | Inr ns \<Rightarrow>
        (case ns of
           Arr (sampleNode # _) \<Rightarrow>
             (case getProp data ''links'' of Inl e \<Rightarrow> Inl e | Inr ls \<Rightarrow>
               (case ls of
                  Arr (sampleLink # _) \<Rightarrow>
                    (case missingAny sampleNode ''id'' ''group'' ''label'' of
                       Inl e \<Rightarrow> Inl e
                     | Inr True \<Rightarrow> Inr False
                     | Inr False \<Rightarrow>
                        (case missingAny sampleLink ''source'' ''target'' ''type'' of
                           Inl e \<Rightarrow> Inl e
                         | Inr True \<Rightarrow> Inr False
                         | Inr False \<Rightarrow>
                            (case getProp sampleLink ''examples'' of
                               Inl e \<Rightarrow> Inl e
                             | Inr ex \<Rightarrow>
                                 if truthy ex \<and> \<not> isArray ex then Inr False
                                 else Inr True)))
                | _ \<Rightarrow> Inr False))
         | _ \<Rightarrow> Inr False))"

text \<open>
  What \<^verbatim>\<open>fetch('data.json')\<close> and \<^verbatim>\<open>response.json()\<close> hand to the loader: the request
  fails, or a response arrives with its \<^verbatim>\<open>ok\<close> flag and a body that parses or not.
\<close>

datatype fetched =
    FetchFailed error
  | Response bool "error + jsval"

text \<open>
  \<^verbatim>\<open>loadFoodSystemData()\<close> (lines 74-91): every error raised inside the
  \<^verbatim>\<open>try\<close> block, the two thrown by the block itself included, is caught and rethrown
  wrapped.
\<close>

definition loadFoodSystemData :: "fetched \<Rightarrow> error + jsval" where
  "loadFoodSystemData f =
     (case f of
        FetchFailed e \<Rightarrow> Inl (LoadError e)
      | Response ok body \<Rightarrow>
          if ok then
            (case body of
               Inl e \<Rightarrow> Inl (LoadError e)
             | Inr data \<Rightarrow>
                 (case validateDataStructure data of
                    Inl e \<Rightarrow> Inl (LoadError e)
                  | Inr True \<Rightarrow> Inr data
                  | Inr False \<Rightarrow> Inl (LoadError (Error ''Invalid data structure in data.json''))))
          else Inl (LoadError (Error ''Failed to fetch data.json'')))"






text \<open>A payload with the given node and link arrays, and any further properties.\<close>

definition payload :: "jsval list \<Rightarrow> jsval list \<Rightarrow> (string \<times> jsval) list \<Rightarrow> jsval" where
  "payload ns ls rest = Obj ((''nodes'', Arr ns) # (''links'', Arr ls) # rest)"




section \<open>Graph Index (script-v2.js, lines 46-66)\<close>

text \<open>
  From here on the dataset is taken as typed: ids, groups, labels and link types are
  strings. A node object is mutable and shared between the \<^verbatim>\<open>nodes\<close> array, the id map
  and the links, and the code compares nodes by identity (\<^verbatim>\<open>link.source === d\<close>), so the
  \<^verbatim>\<open>nodes\<close> array is the store and a reference to a node is its index in that array.
  Positions are reals; \<open>None\<close> is \<^verbatim>\<open>null\<close>. The icon is the list of its code units.
\<close>

record node =
  node_id :: string
  node_group :: string
  node_label :: string
  node_icon :: "nat list"
  node_details :: string
  node_regen_details :: "string option"
  node_isRegenModified :: bool
  node_x :: "real option"
  node_y :: "real option"
  node_fx :: "real option"
  node_fy :: "real option"

text \<open>
  A link; \<open>'e\<close> is \<open>string\<close> (an id) in the dataset and \<open>nat option\<close> (a node reference,
  or \<^verbatim>\<open>undefined\<close>) once \<^verbatim>\<open>initPage\<close> has resolved the endpoints.
\<close>

record 'e link =
  link_source :: 'e
  link_target :: 'e
  link_type :: string
  link_examples :: "string list option"
  link_isReturn :: bool
  link_isRegenHighlight :: bool

type_synonym rawlink = "string link"
type_synonym rlink = "nat option link"

text \<open>
  \<^verbatim>\<open>new Map(nodes.map(node => [node.id, node]))\<close> (line 60): the entries are set in
  array order, so a later node replaces an earlier one with the same id.
\<close>

definition nodeMap :: "node list \<Rightarrow> (string \<rightharpoonup> nat)" where
  "nodeMap ns = foldl (\<lambda>m (i, n). m(node_id n \<mapsto> i)) Map.empty (enumerate 0 ns)"

text \<open>
  \<^verbatim>\<open>data.links.map(link => ({...link, source: nodeMap.get(link.source),
  target: nodeMap.get(link.target)}))\<close> (line 63): one entry per dataset link, none
  dropped; an id the map does not hold resolves to \<^verbatim>\<open>undefined\<close>.
\<close>

definition resolveLink :: "(string \<rightharpoonup> nat) \<Rightarrow> rawlink \<Rightarrow> rlink" where
  "resolveLink m l =
     \<lparr> link_source = m (link_source l), link_target = m (link_target l),
       link_type = link_type l, link_examples = link_examples l,
       link_isReturn = link_isReturn l, link_isRegenHighlight = link_isRegenHighlight l \<rparr>"

definition processLinks :: "node list \<Rightarrow> rawlink list \<Rightarrow> rlink list" where
  "processLinks ns ls = map (resolveLink (nodeMap ns)) ls"

text \<open>\<^verbatim>\<open>nodes.find(p)\<close>: the first node that satisfies \<open>p\<close>, as a reference.\<close>

fun findFrom :: "nat \<Rightarrow> (node \<Rightarrow> bool) \<Rightarrow> node list \<Rightarrow> nat option" where
  "findFrom i p [] = None"
| "findFrom i p (n # ns) = (if p n then Some i else findFrom (Suc i) p ns)"

definition findNode :: "(node \<Rightarrow> bool) \<Rightarrow> node list \<Rightarrow> nat option" where
  "findNode p ns = findFrom 0 p ns"

subsection \<open>Errors and sets\<close>

definition bindE :: "error + 'a \<Rightarrow> ('a \<Rightarrow> error + 'b) \<Rightarrow> error + 'b" where
  "bindE m f = (case m of Inl e \<Rightarrow> Inl e | Inr v \<Rightarrow> f v)"

text \<open>\<^verbatim>\<open>xs.forEach\<close> with a body that may throw and that updates an accumulator.\<close>

fun foldE :: "('s \<Rightarrow> 'a \<Rightarrow> error + 's) \<Rightarrow> 's \<Rightarrow> 'a list \<Rightarrow> error + 's" where
  "foldE f s [] = Inr s"
| "foldE f s (a # as) = bindE (f s a) (\<lambda>s'. foldE f s' as)"

text \<open>
  A JavaScript \<^verbatim>\<open>Set\<close>, as the list of its elements in insertion order:
  \<^verbatim>\<open>add\<close>, \<^verbatim>\<open>new Set(array)\<close>, \<^verbatim>\<open>has\<close> (membership in \<open>set\<close>) and \<^verbatim>\<open>size\<close> (\<open>length\<close>).
\<close>

definition setAdd :: "'a \<Rightarrow> 'a list \<Rightarrow> 'a list" where
  "setAdd v s = (if v \<in> set s then s else s @ [v])"

definition newSet :: "'a list \<Rightarrow> 'a list" where
  "newSet vs = foldl (\<lambda>s v. setAdd v s) [] vs"

text \<open>
  \<^verbatim>\<open>link.source.id\<close> and \<^verbatim>\<open>link.target.id\<close>: reading \<^verbatim>\<open>id\<close> of an unresolved endpoint
  throws.
\<close>

definition endpointId :: "node list \<Rightarrow> nat option \<Rightarrow> error + string" where
  "endpointId ns r = (case r of None \<Rightarrow> Inl TypeError | Some i \<Rightarrow> Inr (node_id (ns ! i)))"

subsection \<open>Neighbour queries (lines 1430-1446, 1686-1699)\<close>

text \<open>
  The body of the loop of \<^verbatim>\<open>findConnectedNodes\<close>: both tests read the set as the
  iteration has left it so far.
\<close>

definition connectedStep :: "node list \<Rightarrow> string list \<Rightarrow> rlink \<Rightarrow> error + string list" where
  "connectedStep ns s l =
     bindE (endpointId ns (link_source l)) (\<lambda>sid.
     bindE (if sid \<in> set s
            then bindE (endpointId ns (link_target l)) (\<lambda>tid. Inr (setAdd tid s))
            else Inr s) (\<lambda>s1.
     bindE (endpointId ns (link_target l)) (\<lambda>tid.
       if tid \<in> set s1
       then bindE (endpointId ns (link_source l)) (\<lambda>sid'. Inr (setAdd sid' s1))
       else Inr s1)))"

definition findConnectedNodes :: "node list \<Rightarrow> rlink list \<Rightarrow> string list \<Rightarrow> error + string list" where
  "findConnectedNodes ns ls startNodeIds = foldE (connectedStep ns) (newSet startNodeIds) ls"

definition connectionsStep :: "node list \<Rightarrow> string \<Rightarrow> string list \<Rightarrow> rlink \<Rightarrow> error + string list" where
  "connectionsStep ns nodeId s l =
     bindE (endpointId ns (link_source l)) (\<lambda>sid.
     bindE (if sid = nodeId
            then bindE (endpointId ns (link_target l)) (\<lambda>tid. Inr (setAdd tid s))
            else Inr s) (\<lambda>s1.
     bindE (endpointId ns (link_target l)) (\<lambda>tid.
       if tid = nodeId
       then bindE (endpointId ns (link_source l)) (\<lambda>sid'. Inr (setAdd sid' s1))
       else Inr s1)))"

definition findNodeConnections :: "node list \<Rightarrow> rlink list \<Rightarrow> string \<Rightarrow> error + string list" where
  "findNodeConnections ns ls nodeId = foldE (connectionsStep ns nodeId) [] ls"

section \<open>Rendered elements and the state of the page\<close>

text \<open>
  One \<^verbatim>\<open>g.node-group\<close> element per entry of \<^verbatim>\<open>nodes\<close> (lines 632-647), with what the
  script writes to it: the class \<^verbatim>\<open>hidden\<close>, the inline styles \<^verbatim>\<open>opacity\<close> and
  \<^verbatim>\<open>pointer-events\<close> (\<open>True\<close> is \<^verbatim>\<open>auto\<close>, \<open>False\<close> is \<^verbatim>\<open>none\<close>), the class
  \<^verbatim>\<open>selected\<close> and the \<^verbatim>\<open>transform\<close> attribute \<^verbatim>\<open>translate(x,y)\<close>. The state is the
  settled one, when the transitions a handler has started have come to their end. A
  transition writes its styles after the handler has returned, so after every style
  the handler writes directly; and when a handler starts a second transition on
  elements on which it has just started one, the second interrupts the first at its
  first tick. Of the interrupted transition \<^verbatim>\<open>pointer-events\<close> has its end value by then
  (a keyword is not interpolated), and \<^verbatim>\<open>opacity\<close> has moved by a fraction of a
  percent, which the model takes as not moved.
\<close>

record nodeElem =
  el_hidden :: bool
  el_opacity :: real
  el_pointer :: bool
  el_selected :: bool
  el_transform :: "real option \<times> real option"

text \<open>
  What is drawn (style.css, lines 313-317): \<^verbatim>\<open>.node-group.hidden\<close> sets
  \<^verbatim>\<open>opacity: 0 !important\<close> and \<^verbatim>\<open>pointer-events: none !important\<close>, which win over the
  inline styles.
\<close>

definition shownOpacity :: "nodeElem \<Rightarrow> real" where
  "shownOpacity e = (if el_hidden e then 0 else el_opacity e)"

definition shownPointer :: "nodeElem \<Rightarrow> bool" where
  "shownPointer e = (if el_hidden e then False else el_pointer e)"

definition rendered :: "nodeElem \<Rightarrow> bool" where
  "rendered e \<longleftrightarrow> shownOpacity e = 1 \<and> shownPointer e"

text \<open>One \<^verbatim>\<open>line.link\<close> element per link: the class \<^verbatim>\<open>animated\<close> and the style \<^verbatim>\<open>animation\<close>.\<close>

record linkElem =
  le_animated :: bool
  le_animation :: string

text \<open>
  The details panel: its initial text, or the icon class, header and detail text of the
  selected node (line 875).
\<close>

datatype panel = PanelDefault | PanelNode string string string

text \<open>A \<^verbatim>\<open>path.mind-map-link\<close> of the focus view (lines 1017-1058).\<close>

record connector =
  con_source :: nat
  con_target :: nat
  con_type :: string
  con_from :: "real option \<times> real option"
  con_to :: "real option \<times> real option"

text \<open>A \<^verbatim>\<open>g.example-node\<close> and the \<^verbatim>\<open>.tree-link\<close> that joins it to its node.\<close>

record exampleNode =
  ex_id :: string
  ex_pos :: "real \<times> real"
  ex_text :: string
  ex_type :: string
  ex_left :: bool

record treeLink =
  tl_straight :: bool
  tl_from :: "real \<times> real"
  tl_to :: "real \<times> real"
  tl_type :: string
  tl_regen :: bool

text \<open>
  The variables of \<^verbatim>\<open>initPage\<close> and \<^verbatim>\<open>initializeVisualization\<close> and the elements they
  own. \<open>width\<close> and \<open>height\<close> are the constants read once at line 35; \<open>regenChecked\<close> is
  the regen checkbox and \<open>categoryCheckboxes\<close> the category checkboxes with their
  \<^verbatim>\<open>checked\<close> flags; \<open>continueButton\<close> is the text of the continue button once
  it exists; \<open>randoms\<close> are the values \<^verbatim>\<open>Math.random()\<close> returns, in call order, and
  \<open>randomCount\<close> how many were drawn. Not part of the state: the opacity and geometry
  of the link lines, the zoom transform, the path guide, the tooltip, and the force
  simulation of the library with its drag behaviour (lines 518-531 and 2122-2152). The
  simulation is created stopped; \<^verbatim>\<open>toggleNonCoreNodes\<close> restarts it (line 2005), and a
  running simulation moves nodes that have no pin between events. \<^verbatim>\<open>nodeClicked\<close>
  (line 916) and the background click (line 2076) stop it before they place nodes, so
  the positions they leave are those computed here.
\<close>

record vstate =
  nodes :: "node list"
  links :: "rlink list"
  width :: real
  height :: real
  isJourneyExpanded :: bool
  expandedNodes :: "string list"
  currentView :: string
  regenChecked :: bool
  categoryCheckboxes :: "(string \<times> bool) list"
  currentlySelectedNodeData :: "nat option"
  currentlySelectedNodeElement :: "nat option"
  detailsPanel :: panel
  nodeGroup :: "nodeElem list"
  linkElems :: "linkElem list"
  mindMapLinks :: "connector list"
  exampleNodes :: "exampleNode list"
  treeLinks :: "treeLink list"
  continueButton :: "string option"
  randoms :: "nat \<Rightarrow> real"
  randomCount :: nat

section \<open>Layout Engine\<close>

subsection \<open>\<^verbatim>\<open>positionNodes\<close> (lines 138-171)\<close>

definition categoryPositions :: "real \<Rightarrow> real \<Rightarrow> string \<Rightarrow> real \<times> real" where
  "categoryPositions w h category =
     (if category = ''core_flow'' then (w * 0.5, h * 0.5)
      else if category = ''subsystem'' then (w * 0.3, h * 0.3)
      else if category = ''community'' then (w * 0.7, h * 0.7)
      else if category = ''policy'' then (w * 0.2, h * 0.2)
      else if category = ''health'' then (w * 0.8, h * 0.2)
      else if category = ''factor'' then (w * 0.2, h * 0.8)
      else if category = ''economic'' then (w * 0.8, h * 0.8)
      else (w * 0.5, h * 0.5))"

text \<open>
  \<^verbatim>\<open>if (!byKey[k]) byKey[k] = []; byKey[k].push(v)\<close> on an object whose keys are kept
  in insertion order.
\<close>

definition pushTo :: "string \<Rightarrow> 'a \<Rightarrow> (string \<times> 'a list) list \<Rightarrow> (string \<times> 'a list) list" where
  "pushTo k v al =
     (if k \<in> fst ` set al
      then map (\<lambda>(k', vs). if k' = k then (k', vs @ [v]) else (k', vs)) al
      else al @ [(k, [v])])"

definition setXY :: "nat \<Rightarrow> real \<Rightarrow> real \<Rightarrow> node list \<Rightarrow> node list" where
  "setXY i px py ns = ns[i := (ns ! i)\<lparr>node_x := Some px, node_y := Some py\<rparr>]"

definition positionCategory :: "real \<Rightarrow> real \<Rightarrow> node list \<Rightarrow> string \<times> nat list \<Rightarrow> node list" where
  "positionCategory w h ns entry =
     (let center = categoryPositions w h (fst entry);
          radius = min w h * 0.15;
          angleStep = (2 * pi) / real (length (snd entry))
      in foldl (\<lambda>ns' (k, i).
                  setXY i (fst center + radius * cos (real k * angleStep))
                          (snd center + radius * sin (real k * angleStep)) ns')
               ns (enumerate 0 (snd entry)))"

definition positionNodes :: "node list \<Rightarrow> real \<Rightarrow> real \<Rightarrow> node list" where
  "positionNodes ns w h =
     (let nodesByCategory = foldl (\<lambda>al (i, n). pushTo (node_group n) i al) [] (enumerate 0 ns)
      in foldl (positionCategory w h) ns nodesByCategory)"

subsection \<open>\<^verbatim>\<open>updatePositions\<close> (lines 843-854)\<close>

text \<open>
  The link attributes read \<^verbatim>\<open>d.source.x\<close> and \<^verbatim>\<open>d.target.x\<close>, which throws on an
  unresolved endpoint; then every node element is moved to its node's position.
\<close>

definition resolved :: "rlink \<Rightarrow> bool" where
  "resolved l \<longleftrightarrow> link_source l \<noteq> None \<and> link_target l \<noteq> None"

definition moveTo :: "nodeElem \<Rightarrow> node \<Rightarrow> nodeElem" where
  "moveTo e n = e\<lparr>el_transform := (node_x n, node_y n)\<rparr>"

definition updatePositions :: "vstate \<Rightarrow> error + vstate" where
  "updatePositions s =
     (if list_all resolved (links s)
      then Inr (s\<lparr>nodeGroup := map2 moveTo (nodeGroup s) (nodes s)\<rparr>)
      else Inl TypeError)"

subsection \<open>\<^verbatim>\<open>setInitialPositions\<close> (lines 676-840)\<close>

definition hasId :: "string \<Rightarrow> node \<Rightarrow> bool" where
  "hasId k n \<longleftrightarrow> node_id n = k"

text \<open>\<^verbatim>\<open>const n = nodes.find(p); if (n) { n.x = px; n.y = py; }\<close>\<close>

definition placeFirst :: "(node \<Rightarrow> bool) \<Rightarrow> real \<Rightarrow> real \<Rightarrow> node list \<Rightarrow> node list" where
  "placeFirst p px py ns = (case findNode p ns of None \<Rightarrow> ns | Some i \<Rightarrow> setXY i px py ns)"

definition primaryFlowStages :: "string list" where
  "primaryFlowStages =
     [''environment'', ''production'', ''packhouses'', ''processing'', ''distribution'',
      ''wholesalers'', ''supermarkets'', ''grocers'', ''consumption'']"

definition placeStage :: "real \<Rightarrow> real \<Rightarrow> real \<Rightarrow> node list \<Rightarrow> nat \<times> string \<Rightarrow> node list" where
  "placeStage startX stagePadding flowY ns entry =
     (case findNode (hasId (snd entry)) ns of
        None \<Rightarrow> ns
      | Some i \<Rightarrow>
          if snd entry = ''grocers''
          then setXY i (startX + stagePadding * 6) (flowY + 80) ns
          else setXY i (startX + stagePadding *
                          (if snd entry = ''supermarkets'' then 6 else real (fst entry)))
                       flowY ns)"

definition factorXPositions :: "real list" where
  "factorXPositions = [0.1, 0.3, 0.5, 0.7, 0.9]"

definition placeFactor :: "real \<Rightarrow> real \<Rightarrow> node list \<Rightarrow> nat \<times> nat \<Rightarrow> node list" where
  "placeFactor w topY ns entry =
     (if fst entry < length factorXPositions
      then setXY (snd entry) (w * (factorXPositions ! fst entry)) topY ns
      else ns)"

definition placeWaste :: "real \<Rightarrow> real \<Rightarrow> real \<Rightarrow> node \<Rightarrow> node" where
  "placeWaste startX stagePadding bottomY n =
     (if node_id n = ''food_loss''
      then n\<lparr>node_x := Some (startX + stagePadding * 2), node_y := Some bottomY\<rparr>
      else if node_id n = ''waste'' \<or> node_id n = ''waste/recovery''
      then n\<lparr>node_x := Some (startX + stagePadding * 5), node_y := Some bottomY\<rparr>
      else if node_id n = ''food_waste''
      then n\<lparr>node_x := Some (startX + stagePadding * 7), node_y := Some bottomY\<rparr>
      else n)"

text \<open>\<^verbatim>\<open>!v\<close> for a position: \<^verbatim>\<open>null\<close> and \<^verbatim>\<open>0\<close> are falsy.\<close>

definition falsyNum :: "real option \<Rightarrow> bool" where
  "falsyNum v \<longleftrightarrow> v = None \<or> v = Some 0"

text \<open>
  The last loop: a node still without position is placed by its group; \<open>c\<close> counts the
  calls of \<^verbatim>\<open>Math.random()\<close>.
\<close>

definition placeRemaining ::
  "(nat \<Rightarrow> real) \<Rightarrow> real \<Rightarrow> real \<Rightarrow> node list \<times> nat \<Rightarrow> node \<Rightarrow> node list \<times> nat" where
  "placeRemaining rnd w h acc n =
     (let done = fst acc; c = snd acc;
          flowY = h * 0.5; secondaryTopY = h * 0.3; secondaryBottomY = h * 0.7;
          margin = w * 0.1; usableWidth = w - margin * 2
      in if falsyNum (node_x n) \<or> falsyNum (node_y n) then
           (if node_group n = ''community''
            then (done @ [n\<lparr>node_x := Some (w * 0.75),
                             node_y := Some (secondaryTopY + rnd c * 0.2 * h)\<rparr>], Suc c)
            else if node_group n = ''health''
            then (done @ [n\<lparr>node_x := Some (w * 0.8), node_y := Some secondaryBottomY\<rparr>], c)
            else if node_group n = ''economic''
            then (done @ [n\<lparr>node_x := Some (w * 0.2), node_y := Some secondaryBottomY\<rparr>], c)
            else (done @ [n\<lparr>node_x := Some (margin + rnd c * usableWidth),
                             node_y := Some (flowY + rnd (Suc c) * 0.3 * h - 0.15 * h)\<rparr>],
                  Suc (Suc c)))
         else (done @ [n], c))"

definition initialLayout ::
  "(nat \<Rightarrow> real) \<Rightarrow> nat \<Rightarrow> real \<Rightarrow> real \<Rightarrow> node list \<Rightarrow> node list \<times> nat" where
  "initialLayout rnd c w h ns =
     (let flowY = h * 0.5; topY = h * 0.15; bottomY = h * 0.85;
          margin = w * 0.1; usableWidth = w - margin * 2;
          stagePadding = usableWidth / (9 - 1); startX = margin;
          ns0 = map (\<lambda>n. n\<lparr>node_x := None, node_y := None\<rparr>) ns;
          ns1 = foldl (placeStage startX stagePadding flowY) ns0 (enumerate 0 primaryFlowStages);
          ns2 = placeFirst (hasId ''inputs'') (startX + stagePadding * 1) (flowY - 80) ns1;
          ns3 = placeFirst (hasId ''imports'') (startX + stagePadding * 4) (flowY - 80) ns2;
          ns4 = placeFirst (hasId ''exports'') (startX + stagePadding * 4) (flowY + 80) ns3;
          ns5 = placeFirst (hasId ''fertilizer_industry'')
                  (startX + stagePadding * 0.5) (flowY + 80) ns4;
          ns6 = placeFirst (hasId ''pest_management'')
                  (startX + stagePadding * 1.5) (flowY + 80) ns5;
          ns7 = placeFirst (\<lambda>n. node_id n = ''restaurants'' \<or> node_id n = ''food_service'')
                  (startX + stagePadding * 6.5) (flowY + 160) ns6;
          ns8 = placeFirst (hasId ''food_rescue'') (startX + stagePadding * 5.5) (flowY - 80) ns7;
          ns9 = placeFirst (hasId ''school_food_programs'')
                  (startX + stagePadding * 5.5) (flowY + 80) ns8;
          ns10 = placeFirst (\<lambda>n. node_id n = ''markets'' \<or> node_id n = ''weekend_markets'')
                  (startX + stagePadding * 6) (flowY - 80) ns9;
          factorNodes = filter (\<lambda>i. node_group (ns10 ! i) = ''factor'') [0 ..< length ns10];
          ns11 = foldl (placeFactor w topY) ns10 (enumerate 0 factorNodes);
          ns12 = map (placeWaste startX stagePadding bottomY) ns11
      in foldl (placeRemaining rnd w h) ([], c) ns12)"

definition setInitialPositions :: "vstate \<Rightarrow> error + vstate" where
  "setInitialPositions s =
     (let placed = initialLayout (randoms s) (randomCount s) (width s) (height s) (nodes s)
      in updatePositions (s\<lparr>nodes := fst placed, randomCount := snd placed\<rparr>))"

section \<open>Disclosure State Machine\<close>

text \<open>
  \<^verbatim>\<open>nodeGroup.style("opacity", d => expandedNodes.has(d.id) ? 1 : 0)\<close> and the same for
  \<^verbatim>\<open>pointer-events\<close> (lines 1383-1386, 1654-1657): every node element, by its node's id.
\<close>

definition showExpanded :: "string list \<Rightarrow> nodeElem \<Rightarrow> node \<Rightarrow> nodeElem" where
  "showExpanded expanded e n =
     e\<lparr>el_opacity := (if node_id n \<in> set expanded then 1 else 0),
       el_pointer := (node_id n \<in> set expanded)\<rparr>"

subsection \<open>\<^verbatim>\<open>expandFoodJourney\<close> (lines 1324-1427)\<close>

text \<open>\<^verbatim>\<open>const n = nodes.find(...id); if (n && expandedNodes.has(id)) { n.x = px; n.y = py; }\<close>\<close>

definition placeIfExpanded :: "string list \<Rightarrow> string \<Rightarrow> real \<Rightarrow> real \<Rightarrow> node list \<Rightarrow> node list" where
  "placeIfExpanded expanded k px py ns =
     (if k \<in> set expanded then placeFirst (hasId k) px py ns else ns)"

definition expandFoodJourney :: "vstate \<Rightarrow> error + vstate" where
  "expandFoodJourney s =
     bindE (findConnectedNodes (nodes s) (links s) [''environment'']) (\<lambda>connectedNodes.
       let coreStageNodes = [''inputs'', ''production'', ''fertilizer_industry'', ''pest_management''];
           firstStageNodes = [''environment''] @ filter (\<lambda>k. k \<in> set connectedNodes) coreStageNodes;
           expanded = newSet firstStageNodes;
           flowY = height s * 0.5; margin = width s * 0.1; usableWidth = width s - margin * 2;
           ns1 = placeFirst (hasId ''environment'') margin flowY (nodes s);
           ns2 = placeIfExpanded expanded ''production'' (margin + usableWidth * 0.2) flowY ns1;
           ns3 = placeIfExpanded expanded ''inputs'' (margin + usableWidth * 0.2) (flowY - 80) ns2;
           ns4 = placeIfExpanded expanded ''fertilizer_industry''
                   (margin + usableWidth * 0.1) (flowY + 80) ns3;
           ns5 = placeIfExpanded expanded ''pest_management''
                   (margin + usableWidth * 0.3) (flowY + 80) ns4
       in bindE (updatePositions (s\<lparr>expandedNodes := expanded, nodes := ns5\<rparr>)) (\<lambda>s1.
            Inr (s1\<lparr>nodeGroup := map2 (showExpanded expanded) (nodeGroup s1) (nodes s1),
                    isJourneyExpanded := True,
                    continueButton := Some ''Continue Journey''\<rparr>)))"

subsection \<open>The stage table of \<^verbatim>\<open>continueFoodJourney\<close> (lines 1456-1580)\<close>

definition stage1Core :: "string list" where
  "stage1Core =
     [''environment'', ''inputs'', ''production'', ''fertilizer_industry'',
      ''pest_management'']"

definition stage1Positions :: "real \<Rightarrow> real \<Rightarrow> real \<Rightarrow> (string \<times> real \<times> real) list" where
  "stage1Positions margin usableWidth flowY =
     [(''environment'', (margin, flowY)),
      (''production'', (margin + usableWidth * 0.2, flowY)),
      (''inputs'', (margin + usableWidth * 0.2, flowY - 80)),
      (''fertilizer_industry'', (margin + usableWidth * 0.1, flowY + 80)),
      (''pest_management'', (margin + usableWidth * 0.3, flowY + 80))]"

definition stage2Core :: "string list" where
  "stage2Core =
     [''environment'', ''inputs'', ''production'', ''fertilizer_industry'',
      ''pest_management'', ''packhouses'', ''processing'']"

definition stage2Positions :: "real \<Rightarrow> real \<Rightarrow> real \<Rightarrow> (string \<times> real \<times> real) list" where
  "stage2Positions margin usableWidth flowY =
     [(''environment'', (margin, flowY)),
      (''production'', (margin + usableWidth * 0.15, flowY)),
      (''inputs'', (margin + usableWidth * 0.15, flowY - 80)),
      (''fertilizer_industry'', (margin + usableWidth * 0.07, flowY + 80)),
      (''pest_management'', (margin + usableWidth * 0.22, flowY + 80)),
      (''packhouses'', (margin + usableWidth * 0.3, flowY)),
      (''processing'', (margin + usableWidth * 0.45, flowY))]"

definition stage3Core :: "string list" where
  "stage3Core =
     [''environment'', ''inputs'', ''production'', ''fertilizer_industry'',
      ''pest_management'', ''packhouses'', ''processing'', ''distribution'', ''imports'',
      ''exports'']"

definition stage3Positions :: "real \<Rightarrow> real \<Rightarrow> real \<Rightarrow> (string \<times> real \<times> real) list" where
  "stage3Positions margin usableWidth flowY =
     [(''environment'', (margin, flowY)),
      (''production'', (margin + usableWidth * 0.13, flowY)),
      (''inputs'', (margin + usableWidth * 0.13, flowY - 80)),
      (''fertilizer_industry'', (margin + usableWidth * 0.06, flowY + 80)),
      (''pest_management'', (margin + usableWidth * 0.2, flowY + 80)),
      (''packhouses'', (margin + usableWidth * 0.26, flowY)),
      (''processing'', (margin + usableWidth * 0.39, flowY)),
      (''distribution'', (margin + usableWidth * 0.52, flowY)),
      (''imports'', (margin + usableWidth * 0.52, flowY - 80)),
      (''exports'', (margin + usableWidth * 0.52, flowY + 80))]"

definition stage4Core :: "string list" where
  "stage4Core =
     [''environment'', ''inputs'', ''production'', ''fertilizer_industry'',
      ''pest_management'', ''packhouses'', ''processing'', ''distribution'', ''imports'',
      ''exports'', ''wholesalers'', ''food_rescue'', ''school_food_programs'']"

definition stage4Positions :: "real \<Rightarrow> real \<Rightarrow> real \<Rightarrow> (string \<times> real \<times> real) list" where
  "stage4Positions margin usableWidth flowY =
     [(''environment'', (margin, flowY)),
      (''production'', (margin + usableWidth * 0.12, flowY)),
      (''inputs'', (margin + usableWidth * 0.12, flowY - 80)),
      (''fertilizer_industry'', (margin + usableWidth * 0.06, flowY + 80)),
      (''pest_management'', (margin + usableWidth * 0.18, flowY + 80)),
      (''packhouses'', (margin + usableWidth * 0.24, flowY)),
      (''processing'', (margin + usableWidth * 0.36, flowY)),
      (''distribution'', (margin + usableWidth * 0.48, flowY)),
      (''imports'', (margin + usableWidth * 0.48, flowY - 80)),
      (''exports'', (margin + usableWidth * 0.48, flowY + 80)),
      (''wholesalers'', (margin + usableWidth * 0.60, flowY)),
      (''food_rescue'', (margin + usableWidth * 0.72, flowY - 80)),
      (''school_food_programs'', (margin + usableWidth * 0.72, flowY + 80))]"

definition stage5Core :: "string list" where
  "stage5Core =
     [''environment'', ''inputs'', ''production'', ''fertilizer_industry'',
      ''pest_management'', ''packhouses'', ''processing'', ''distribution'', ''imports'',
      ''exports'', ''wholesalers'', ''food_rescue'', ''school_food_programs'',
      ''supermarkets'', ''grocers'', ''markets'', ''food_service'', ''restaurants'']"

definition stage5Positions :: "real \<Rightarrow> real \<Rightarrow> real \<Rightarrow> (string \<times> real \<times> real) list" where
  "stage5Positions margin usableWidth flowY =
     [(''environment'', (margin, flowY)),
      (''production'', (margin + usableWidth * 0.11, flowY)),
      (''inputs'', (margin + usableWidth * 0.11, flowY - 80)),
      (''fertilizer_industry'', (margin + usableWidth * 0.055, flowY + 80)),
      (''pest_management'', (margin + usableWidth * 0.165, flowY + 80)),
      (''packhouses'', (margin + usableWidth * 0.22, flowY)),
      (''processing'', (margin + usableWidth * 0.33, flowY)),
      (''distribution'', (margin + usableWidth * 0.44, flowY)),
      (''imports'', (margin + usableWidth * 0.44, flowY - 80)),
      (''exports'', (margin + usableWidth * 0.44, flowY + 80)),
      (''wholesalers'', (margin + usableWidth * 0.55, flowY)),
      (''food_rescue'', (margin + usableWidth * 0.66, flowY - 80)),
      (''school_food_programs'', (margin + usableWidth * 0.66, flowY + 80)),
      (''supermarkets'', (margin + usableWidth * 0.77, flowY)),
      (''grocers'', (margin + usableWidth * 0.77, flowY + 80)),
      (''markets'', (margin + usableWidth * 0.77, flowY - 80)),
      (''food_service'', (margin + usableWidth * 0.77, flowY + 160)),
      (''restaurants'', (margin + usableWidth * 0.77, flowY + 160))]"

definition stage6Core :: "string list" where
  "stage6Core =
     [''environment'', ''inputs'', ''production'', ''fertilizer_industry'',
      ''pest_management'', ''packhouses'', ''processing'', ''distribution'', ''imports'',
      ''exports'', ''wholesalers'', ''food_rescue'', ''school_food_programs'',
      ''supermarkets'', ''grocers'', ''markets'', ''food_service'', ''restaurants'',
      ''consumption'']"

definition stage6Positions :: "real \<Rightarrow> real \<Rightarrow> real \<Rightarrow> (string \<times> real \<times> real) list" where
  "stage6Positions margin usableWidth flowY =
     [(''environment'', (margin, flowY)),
      (''production'', (margin + usableWidth * 0.1, flowY)),
      (''inputs'', (margin + usableWidth * 0.1, flowY - 80)),
      (''fertilizer_industry'', (margin + usableWidth * 0.05, flowY + 80)),
      (''pest_management'', (margin + usableWidth * 0.15, flowY + 80)),
      (''packhouses'', (margin + usableWidth * 0.2, flowY)),
      (''processing'', (margin + usableWidth * 0.3, flowY)),
      (''distribution'', (margin + usableWidth * 0.4, flowY)),
      (''imports'', (margin + usableWidth * 0.4, flowY - 80)),
      (''exports'', (margin + usableWidth * 0.4, flowY + 80)),
      (''wholesalers'', (margin + usableWidth * 0.5, flowY)),
      (''food_rescue'', (margin + usableWidth * 0.6, flowY - 80)),
      (''school_food_programs'', (margin + usableWidth * 0.6, flowY + 80)),
      (''supermarkets'', (margin + usableWidth * 0.7, flowY)),
      (''grocers'', (margin + usableWidth * 0.7, flowY + 80)),
      (''markets'', (margin + usableWidth * 0.7, flowY - 80)),
      (''food_service'', (margin + usableWidth * 0.7, flowY + 160)),
      (''restaurants'', (margin + usableWidth * 0.7, flowY + 160)),
      (''consumption'', (margin + usableWidth * 0.9, flowY))]"

text \<open>
  The seven entries of \<^verbatim>\<open>journeyStages\<close>: the core node ids and the position table of
  each; the last one holds every node id and has no table.
\<close>

definition journeyStages ::
  "node list \<Rightarrow> real \<Rightarrow> real \<Rightarrow> real \<Rightarrow> (string list \<times> (string \<times> real \<times> real) list option) list" where
  "journeyStages ns margin usableWidth flowY =
     [(stage1Core, Some (stage1Positions margin usableWidth flowY)),
      (stage2Core, Some (stage2Positions margin usableWidth flowY)),
      (stage3Core, Some (stage3Positions margin usableWidth flowY)),
      (stage4Core, Some (stage4Positions margin usableWidth flowY)),
      (stage5Core, Some (stage5Positions margin usableWidth flowY)),
      (stage6Core, Some (stage6Positions margin usableWidth flowY)),
      (map node_id ns, None)]"

subsection \<open>\<^verbatim>\<open>continueFoodJourney\<close> (lines 1449-1683)\<close>

text \<open>
  The search for the current stage (lines 1582-1605): the first stage, from index
  \<open>i\<close> on, all of whose core ids are in \<^verbatim>\<open>expandedNodes\<close>; \<open>-1\<close> when there is none.
\<close>

fun findStage :: "string list \<Rightarrow> (string list \<times> 'p) list \<Rightarrow> nat \<Rightarrow> int" where
  "findStage expanded [] i = - 1"
| "findStage expanded (st # sts) i =
     (if list_all (\<lambda>nodeId. nodeId \<in> set expanded) (newSet (fst st)) then int i
      else findStage expanded sts (Suc i))"

text \<open>
  The body of the positioning loop (lines 1623-1644) for one node: its table entry if
  it has one; otherwise, if it is to be shown, a random offset from the first of its
  neighbours that has a table entry. \<open>acc\<close> holds the nodes done and the count of
  \<^verbatim>\<open>Math.random()\<close> calls.
\<close>

definition placeJourneyNode ::
  "(nat \<Rightarrow> real) \<Rightarrow> (string \<times> real \<times> real) list \<Rightarrow> string list \<Rightarrow> node list \<Rightarrow> rlink list \<Rightarrow>
   node list \<times> nat \<Rightarrow> node \<Rightarrow> error + node list \<times> nat" where
  "placeJourneyNode rnd positions expanded ns ls acc n =
     (case map_of positions (node_id n) of
        Some position \<Rightarrow>
          Inr (fst acc @ [n\<lparr>node_x := Some (fst position), node_y := Some (snd position)\<rparr>], snd acc)
      | None \<Rightarrow>
          if node_id n \<in> set expanded then
            bindE (findNodeConnections ns ls (node_id n)) (\<lambda>connectedTo.
              case List.find (\<lambda>connId. map_of positions connId \<noteq> None) connectedTo of
                None \<Rightarrow> Inr (fst acc @ [n], snd acc)
              | Some connId \<Rightarrow>
                  (case map_of positions connId of
                     None \<Rightarrow> Inr (fst acc @ [n], snd acc)
                   | Some basePos \<Rightarrow>
                       Inr (fst acc @
                              [n\<lparr>node_x := Some (fst basePos + (rnd (snd acc) - 0.5) * 100),
                                 node_y := Some (snd basePos + (rnd (Suc (snd acc)) - 0.5) * 100)\<rparr>],
                            Suc (Suc (snd acc)))))
          else Inr (fst acc @ [n], snd acc))"

text \<open>Lines 1451-1453 and 1456: the table for the page's width and height.\<close>

definition stagesOf :: "vstate \<Rightarrow> (string list \<times> (string \<times> real \<times> real) list option) list" where
  "stagesOf s =
     (let flowY = height s * 0.5; margin = width s * 0.05; usableWidth = width s - margin * 2
      in journeyStages (nodes s) margin usableWidth flowY)"

text \<open>Lines 1582-1608: \<^verbatim>\<open>(currentStageIndex + 1) % journeyStages.length\<close>.\<close>

definition nextStageIndex :: "vstate \<Rightarrow> nat" where
  "nextStageIndex s =
     (let currentStageIndex = findStage (expandedNodes s) (stagesOf s) 0
      in nat ((currentStageIndex + 1) mod int (length (stagesOf s))))"

text \<open>
  Lines 1621-1644: the positioning loop over all nodes. It changes positions only, so
  the neighbour lookups inside it may read the ids from the nodes as they were.
\<close>

definition placeJourneyNodes :: "(string \<times> real \<times> real) list \<Rightarrow> vstate \<Rightarrow> error + vstate" where
  "placeJourneyNodes positions s =
     bindE (foldE (placeJourneyNode (randoms s) positions (expandedNodes s) (nodes s) (links s))
              ([], randomCount s) (nodes s)) (\<lambda>placed.
       Inr (s\<lparr>nodes := fst placed, randomCount := snd placed\<rparr>))"

text \<open>Lines 1654-1657 and 1676-1682: the nodes of the stage are shown, the button renamed.\<close>

definition showStage :: "nat \<Rightarrow> vstate \<Rightarrow> vstate" where
  "showStage stageIndex s =
     s\<lparr>nodeGroup := map2 (showExpanded (expandedNodes s)) (nodeGroup s) (nodes s),
       continueButton :=
         (if continueButton s = None then None
          else if stageIndex = length (stagesOf s) - 1 then Some ''Reset Journey''
          else Some ''Continue Journey'')\<rparr>"

definition continueFoodJourney :: "vstate \<Rightarrow> error + vstate" where
  "continueFoodJourney s =
     (let nextStage = stagesOf s ! nextStageIndex s;
          nextCoreCoreNodes = newSet (fst nextStage)
      in bindE (findConnectedNodes (nodes s) (links s) (fst nextStage)) (\<lambda>allConnectedNodes.
           let s1 = s\<lparr>expandedNodes := newSet (nextCoreCoreNodes @ allConnectedNodes)\<rparr>
           in bindE (case snd nextStage of
                       Some positions \<Rightarrow> placeJourneyNodes positions s1
                     | None \<Rightarrow> setInitialPositions s1) (\<lambda>s2.
              bindE (updatePositions s2) (\<lambda>s3.
                Inr (showStage (nextStageIndex s) s3)))))"

section \<open>Focus view: \<^verbatim>\<open>nodeClicked\<close> (lines 857-1321)\<close>

definition getIconClass :: "nat list \<Rightarrow> string" where
  "getIconClass unicode =
     (case map_of
        [([0xf085], ''fa-cogs''), ([0xf722], ''fa-tractor''), ([0xf275], ''fa-industry''),
         ([0xf0d1], ''fa-truck''), ([0xf54e], ''fa-store''), ([0xf2e7], ''fa-utensils''),
         ([0xf1b8], ''fa-recycle''), ([0xf66f], ''fa-landmark''), ([0xf201], ''fa-chart-line''),
         ([0xf06c], ''fa-leaf''), ([0xf0c0], ''fa-users''), ([0xf2db], ''fa-microchip''),
         ([0xf3ed], ''fa-shield-virus'')] unicode of
        Some c \<Rightarrow> c
      | None \<Rightarrow> ''fa-question-circle'')"

text \<open>\<^verbatim>\<open>updateAnimationState(isNodeSelected)\<close> (lines 1797-1810).\<close>

definition animationOf :: "rlink \<Rightarrow> string" where
  "animationOf l =
     (if link_type l = ''flow'' then ''flowAnimation 1.5s linear infinite''
      else if link_type l = ''waste'' then ''wasteFlowAnimation 2s linear infinite''
      else if link_type l = ''recycle'' \<or> (link_type l = ''influence'' \<and> link_isReturn l)
      then ''recycleAnimation 2s linear infinite''
      else ''none'')"

definition animate :: "bool \<Rightarrow> linkElem \<Rightarrow> rlink \<Rightarrow> linkElem" where
  "animate isNodeSelected e l =
     e\<lparr>le_animated := \<not> isNodeSelected,
       le_animation := (if isNodeSelected then ''none'' else animationOf l)\<rparr>"

definition updateAnimationState :: "bool \<Rightarrow> vstate \<Rightarrow> vstate" where
  "updateAnimationState isNodeSelected s =
     s\<lparr>linkElems := map2 (animate isNodeSelected) (linkElems s) (links s)\<rparr>"

text \<open>
  \<^verbatim>\<open>[a, b].sort().join('-') + '-' + type\<close>: the default sort compares strings by code
  unit and exchanges the two only when the second is smaller.
\<close>

fun strLess :: "string \<Rightarrow> string \<Rightarrow> bool" where
  "strLess [] [] = False"
| "strLess [] (c # cs) = True"
| "strLess (c # cs) [] = False"
| "strLess (c # cs) (c' # cs') =
     ((of_char c :: nat) < of_char c' \<or> (c = c' \<and> strLess cs cs'))"

definition linkKey :: "string \<Rightarrow> string \<Rightarrow> string \<Rightarrow> string" where
  "linkKey a b t = (if strLess b a then b @ ''-'' @ a else a @ ''-'' @ b) @ ''-'' @ t"

definition allowedTypes :: "bool \<Rightarrow> string list" where
  "allowedTypes isNegativeView =
     (if isNegativeView then [''flow'', ''influence'', ''waste'', ''problem'']
      else [''flow'', ''influence'', ''waste''])"

text \<open>
  The body of the loop of lines 893-910. The accumulator is the set \<^verbatim>\<open>connectedNodes\<close>
  (of node references, \<^verbatim>\<open>undefined\<close> among them) and the entries of \<^verbatim>\<open>uniqueLinksMap\<close>
  in insertion order.
\<close>

definition focusStep ::
  "node list \<Rightarrow> nat \<Rightarrow> bool \<Rightarrow> nat option list \<times> (string \<times> rlink) list \<Rightarrow> rlink \<Rightarrow>
   error + nat option list \<times> (string \<times> rlink) list" where
  "focusStep ns d isNegativeView acc l =
     (if (link_source l = Some d \<or> link_target l = Some d) \<and>
         link_type l \<in> set (allowedTypes isNegativeView)
      then
        (let otherNode = (if link_source l = Some d then link_target l else link_source l);
             connectedNodes = setAdd otherNode (fst acc)
         in bindE (endpointId ns (link_source l)) (\<lambda>sid.
            bindE (endpointId ns (link_target l)) (\<lambda>tid.
              let k = linkKey sid tid (link_type l)
              in Inr (connectedNodes,
                      if k \<in> fst ` set (snd acc) then snd acc else snd acc @ [(k, l)]))))
      else Inr acc)"

text \<open>
  Lines 929-942: the neighbour of each kept link, filed under its group. Reading
  \<^verbatim>\<open>connectedNode.group\<close> throws on an unresolved endpoint.
\<close>

definition groupStep ::
  "node list \<Rightarrow> nat \<Rightarrow> (string \<times> (nat \<times> rlink) list) list \<Rightarrow> rlink \<Rightarrow>
   error + (string \<times> (nat \<times> rlink) list) list" where
  "groupStep ns d nodesByGroup l =
     (case (if link_source l = Some d then link_target l else link_source l) of
        None \<Rightarrow> Inl TypeError
      | Some connectedNode \<Rightarrow>
          Inr (pushTo (node_group (ns ! connectedNode)) (connectedNode, l) nodesByGroup))"

text \<open>
  \<^verbatim>\<open>list.sort((a, b) => a.node.id.localeCompare(b.node.id))\<close>: a stable sort; the
  collation \<open>le\<close> of \<^verbatim>\<open>localeCompare\<close> belongs to the browser and is a parameter.
\<close>

fun insertBy :: "(string \<Rightarrow> string \<Rightarrow> bool) \<Rightarrow> node list \<Rightarrow> nat \<times> rlink \<Rightarrow> (nat \<times> rlink) list \<Rightarrow> (nat \<times> rlink) list" where
  "insertBy le ns a [] = [a]"
| "insertBy le ns a (b # bs) =
     (if le (node_id (ns ! fst a)) (node_id (ns ! fst b)) then a # b # bs
      else b # insertBy le ns a bs)"

definition sortById :: "(string \<Rightarrow> string \<Rightarrow> bool) \<Rightarrow> node list \<Rightarrow> (nat \<times> rlink) list \<Rightarrow> (nat \<times> rlink) list" where
  "sortById le ns entries = foldr (insertBy le ns) entries []"

text \<open>Lines 970-988: a column of neighbours, each placed and pinned.\<close>

definition pinAt :: "nat \<Rightarrow> real \<Rightarrow> real \<Rightarrow> node list \<Rightarrow> node list" where
  "pinAt i px py ns =
     ns[i := (ns ! i)\<lparr>node_x := Some px, node_y := Some py, node_fx := Some px, node_fy := Some py\<rparr>]"

definition pinColumn :: "real \<Rightarrow> real \<Rightarrow> (nat \<times> rlink) list \<Rightarrow> node list \<Rightarrow> node list" where
  "pinColumn px centerY column ns =
     (let verticalSpacing = 120;
          columnHeight = (real (length column) - 1) * verticalSpacing
      in foldl (\<lambda>ns' (i, nodeInfo).
                  pinAt (fst nodeInfo) px (centerY - columnHeight / 2 + real i * verticalSpacing) ns')
               ns (enumerate 0 column))"

text \<open>
  Lines 991-995: the transition that is to leave only the clicked node and its
  neighbours visible. The transition of the \<^verbatim>\<open>transform\<close> attribute that lines 998-1002
  start on the same elements interrupts it, so \<^verbatim>\<open>pointer-events\<close> is set and
  \<^verbatim>\<open>opacity\<close> stays as it was.
\<close>

definition showConnected :: "nat option list \<Rightarrow> nodeElem \<times> nat \<Rightarrow> nodeElem" where
  "showConnected connectedNodes en =
     (fst en)\<lparr>el_pointer := (Some (snd en) \<in> set connectedNodes)\<rparr>"

text \<open>
  The body of the loop of lines 1018-1058: the two ends of the path are the variables
  \<^verbatim>\<open>source\<close> and \<^verbatim>\<open>target\<close> of lines 1019-1020.
\<close>

definition renderStep ::
  "node list \<Rightarrow> nat \<Rightarrow> string list \<times> connector list \<Rightarrow> rlink \<Rightarrow> error + string list \<times> connector list" where
  "renderStep ns d acc l =
     (let source = (if link_source l = Some d then Some d else link_source l);
          target = (if link_source l = Some d then link_target l else link_source l)
      in case source of None \<Rightarrow> Inl TypeError | Some src \<Rightarrow>
        (case target of None \<Rightarrow> Inl TypeError | Some tgt \<Rightarrow>
           (let k = linkKey (node_id (ns ! src)) (node_id (ns ! tgt)) (link_type l)
            in if k \<in> set (fst acc) then Inr acc
               else Inr (setAdd k (fst acc),
                         snd acc @
                           [\<lparr> con_source = src, con_target = tgt, con_type = link_type l,
                              con_from = (node_x (ns ! src), node_y (ns ! src)),
                              con_to = (node_x (ns ! tgt), node_y (ns ! tgt)) \<rparr>]))))"

text \<open>
  Lines 1068-1189: the example labels of one neighbour, on the left (\<open>left\<close>) or on the
  right. At most three are made; \<^verbatim>\<open>createdExamples\<close> is shared by both sides. A
  \<^verbatim>\<open>null\<close> coordinate counts as \<open>0\<close> in the arithmetic.
\<close>

definition numOf :: "real option \<Rightarrow> real" where
  "numOf v = (case v of None \<Rightarrow> 0 | Some r \<Rightarrow> r)"

definition exampleStep ::
  "bool \<Rightarrow> node list \<Rightarrow> string list \<times> exampleNode list \<times> treeLink list \<Rightarrow> nat \<times> rlink \<Rightarrow>
   string list \<times> exampleNode list \<times> treeLink list" where
  "exampleStep left ns acc nodeInfo =
     (case link_examples (snd nodeInfo) of
        None \<Rightarrow> acc
      | Some allExamples \<Rightarrow>
          if allExamples = [] then acc
          else
            (let n = ns ! fst nodeInfo;
                 l = snd nodeInfo;
                 examples = take 3 allExamples;
                 totalExamples = length examples;
                 arcSpread = 25;
                 startAngle = (if left then 180 else 0) - arcSpread / 2;
                 radius = 150
             in foldl (\<lambda>acc' (j, example).
                  let exampleId = ''example-'' @ node_id n @ ''-'' @ [''012'' ! j] @ ''-'' @ link_type l
                  in if exampleId \<in> set (fst acc') then acc'
                     else
                       (let angle = startAngle +
                              real j * arcSpread /
                                (if totalExamples - 1 = 0 then 1 else real (totalExamples - 1));
                            radians = angle * pi / 180;
                            px = numOf (node_x n) + radius * cos radians;
                            py = numOf (node_y n) + radius * sin radians
                        in (setAdd exampleId (fst acc'),
                            fst (snd acc') @
                              [\<lparr> ex_id = exampleId, ex_pos = (px, py), ex_text = example,
                                 ex_type = link_type l, ex_left = left \<rparr>],
                            snd (snd acc') @
                              [\<lparr> tl_straight = (totalExamples = 3 \<and> j = 1),
                                 tl_from = (numOf (node_x n), numOf (node_y n)),
                                 tl_to = (px, py), tl_type = link_type l,
                                 tl_regen = link_isRegenHighlight l \<rparr>])))
                acc (enumerate 0 examples)))"

text \<open>Lines 877-881: the class \<^verbatim>\<open>selected\<close> moves to the clicked element.\<close>

definition selectElement :: "nat option \<Rightarrow> nat \<Rightarrow> nodeElem list \<Rightarrow> nodeElem list" where
  "selectElement previous d els =
     (let els1 = (case previous of None \<Rightarrow> els
                  | Some p \<Rightarrow> els[p := (els ! p)\<lparr>el_selected := False\<rparr>])
      in els1[d := (els1 ! d)\<lparr>el_selected := True\<rparr>])"

text \<open>
  \<^verbatim>\<open>nodeClicked(event, d)\<close> for the node with reference \<open>d\<close>. The first click on
  \<^verbatim>\<open>environment\<close> starts the journey; any other click builds the focus view. The class
  \<^verbatim>\<open>main-flow\<close> (lines 1292-1303) is not kept, but its callback reads \<^verbatim>\<open>d.source.id\<close> of
  every link and throws on an unresolved one.
\<close>

definition nodeClicked :: "(string \<Rightarrow> string \<Rightarrow> bool) \<Rightarrow> nat \<Rightarrow> vstate \<Rightarrow> error + vstate" where
  "nodeClicked le d s =
     (if node_id (nodes s ! d) = ''environment'' \<and> \<not> isJourneyExpanded s then expandFoodJourney s
      else
        (let dn = nodes s ! d;
             isRegenActive = regenChecked s;
             isNegativeView = (currentView s = ''negative'');
             detailText = (case node_regen_details dn of
                             None \<Rightarrow> node_details dn
                           | Some r \<Rightarrow> if isRegenActive \<and> r \<noteq> [] then r else node_details dn);
             headerText = (if isRegenActive \<and> node_isRegenModified dn
                           then node_label dn @ '' [Regen Focus]'' else node_label dn);
             s1 = updateAnimationState True
                    (s\<lparr>mindMapLinks := [], treeLinks := [], exampleNodes := [],
                       currentlySelectedNodeData := Some d,
                       detailsPanel := PanelNode (getIconClass (node_icon dn)) headerText detailText,
                       nodeGroup := selectElement (currentlySelectedNodeElement s) d (nodeGroup s),
                       currentlySelectedNodeElement := Some d\<rparr>)
         in bindE (foldE (focusStep (nodes s1) d isNegativeView) ([Some d], []) (links s1)) (\<lambda>found.
            let connectedNodes = fst found;
                connectedLinks = map snd (snd found);
                centerX = width s1 / 2;
                centerY = height s1 / 2;
                ns1 = pinAt d centerX centerY (nodes s1)
            in bindE (foldE (groupStep ns1 d) [] connectedLinks) (\<lambda>nodesByGroup.
               let sorted = map (\<lambda>entry. (fst entry, sortById le ns1 (snd entry))) nodesByGroup;
                   leftGroups = [''factor''];
                   leftNodes = concat (map snd (filter (\<lambda>entry. fst entry \<in> set leftGroups) sorted));
                   rightNodes = concat (map snd (filter (\<lambda>entry. fst entry \<notin> set leftGroups) sorted));
                   horizontalSpacing = 350;
                   ns2 = pinColumn (centerX - horizontalSpacing) centerY leftNodes ns1;
                   ns3 = pinColumn (centerX + horizontalSpacing) centerY rightNodes ns2;
                   els = map2 moveTo
                           (map (showConnected connectedNodes)
                              (zip (nodeGroup s1) [0 ..< length (nodeGroup s1)])) ns3
               in bindE (foldE (renderStep ns3 d) ([], []) connectedLinks) (\<lambda>drawn.
                  let made = foldl (exampleStep False ns3)
                               (foldl (exampleStep True ns3) ([], [], []) leftNodes) rightNodes
                  in if list_all resolved (links s1)
                     then Inr (s1\<lparr>nodes := ns3, nodeGroup := els, mindMapLinks := snd drawn,
                                  exampleNodes := fst (snd made), treeLinks := snd (snd made)\<rparr>)
                     else Inl TypeError)))))"

section \<open>Interaction Controller\<close>

subsection \<open>Category filter (lines 1953-1980)\<close>

text \<open>
  \<^verbatim>\<open>toggleCategoryVisibility(category, showCategory)\<close>: the elements whose
  \<^verbatim>\<open>data-group\<close> is the category get or lose the class \<^verbatim>\<open>hidden\<close> and have their inline
  styles set; nothing happens when there is no such element.
\<close>

definition toggleElem :: "string \<Rightarrow> bool \<Rightarrow> nodeElem \<Rightarrow> node \<Rightarrow> nodeElem" where
  "toggleElem category showCategory e n =
     (if node_group n = category
      then e\<lparr>el_hidden := \<not> showCategory,
             el_opacity := (if showCategory then 1 else 0),
             el_pointer := showCategory\<rparr>
      else e)"

definition toggleCategoryVisibility :: "string \<Rightarrow> bool \<Rightarrow> vstate \<Rightarrow> vstate" where
  "toggleCategoryVisibility category showCategory s =
     (if \<not> list_ex (\<lambda>n. node_group n = category) (nodes s) then s
      else s\<lparr>nodeGroup := map2 (toggleElem category showCategory) (nodeGroup s) (nodes s)\<rparr>)"

subsection \<open>Window resize (lines 2042-2054)\<close>

definition resize :: "real \<Rightarrow> real \<Rightarrow> vstate \<Rightarrow> error + vstate" where
  "resize newWidth newHeight s =
     updatePositions (s\<lparr>nodes := positionNodes (nodes s) newWidth newHeight\<rparr>)"

subsection \<open>Background click (lines 2057-2119)\<close>

text \<open>\<^verbatim>\<open>node.fx = null; node.fy = null\<close> (lines 2077-2080).\<close>

definition unpin :: "node \<Rightarrow> node" where
  "unpin n = n\<lparr>node_fx := None, node_fy := None\<rparr>"

definition resetElem :: "nodeElem \<Rightarrow> nodeElem" where
  "resetElem e = e\<lparr>el_opacity := (if el_hidden e then 0 else 1), el_pointer := \<not> el_hidden e\<rparr>"

definition clearSelection :: "vstate \<Rightarrow> vstate" where
  "clearSelection s =
     (case currentlySelectedNodeElement s of
        None \<Rightarrow> s
      | Some p \<Rightarrow>
          s\<lparr>nodeGroup := (nodeGroup s)[p := (nodeGroup s ! p)\<lparr>el_selected := False\<rparr>],
            currentlySelectedNodeElement := None,
            currentlySelectedNodeData := None\<rparr>)"

text \<open>
  The click handler of the SVG; \<open>defaultPrevented\<close> is \<^verbatim>\<open>event.defaultPrevented\<close>. A
  click on a node circle never reaches it (\<^verbatim>\<open>event.stopPropagation()\<close>, lines 861
  and 1320).
\<close>

definition svgClick :: "bool \<Rightarrow> vstate \<Rightarrow> error + vstate" where
  "svgClick defaultPrevented s =
     (if defaultPrevented then Inr s
      else if isJourneyExpanded s \<and> length (expandedNodes s) < length (nodes s)
      then continueFoodJourney s
      else
        (let s1 = clearSelection s;
             s2 = s1\<lparr>detailsPanel := PanelDefault,
                     nodes := map unpin (nodes s1)\<rparr>
         in bindE (setInitialPositions s2) (\<lambda>s3.
              Inr (updateAnimationState False
                     (s3\<lparr>nodeGroup := map resetElem (nodeGroup s3),
                         mindMapLinks := [], treeLinks := [], exampleNodes := []\<rparr>)))))"

subsection \<open>View mode and non-core toggle (lines 1705-1760, 1983-2006)\<close>

text \<open>
  \<^verbatim>\<open>applyRegenStyles\<close> calls \<^verbatim>\<open>updateNodeDetails\<close>, which the script never defines, when a
  regen-modified node is selected. The classes it sets are not kept.
\<close>

definition applyRegenStyles :: "bool \<Rightarrow> vstate \<Rightarrow> error + vstate" where
  "applyRegenStyles isActive s =
     (case currentlySelectedNodeData s of
        None \<Rightarrow> Inr s
      | Some d \<Rightarrow> if node_isRegenModified (nodes s ! d) then Inl ReferenceError else Inr s)"

definition setOpacity :: "(node \<Rightarrow> real) \<Rightarrow> vstate \<Rightarrow> vstate" where
  "setOpacity f s =
     s\<lparr>nodeGroup := map2 (\<lambda>e n. e\<lparr>el_opacity := f n\<rparr>) (nodeGroup s) (nodes s)\<rparr>"

definition applyViewMode :: "string \<Rightarrow> vstate \<Rightarrow> error + vstate" where
  "applyViewMode view s =
     (let s1 = s\<lparr>currentView := view\<rparr>
      in if view = ''regen''
         then bindE (applyRegenStyles True s1) (\<lambda>s2.
                Inr (setOpacity (\<lambda>n. if node_isRegenModified n then 1 else 0.3) s2))
         else if view = ''negative'' then Inr (setOpacity (\<lambda>n. 1) s1)
         else bindE (applyRegenStyles False s1) (\<lambda>s2. Inr (setOpacity (\<lambda>n. 1) s2)))"

text \<open>
  \<^verbatim>\<open>toggleNonCoreNodes(showNonCore)\<close> on the elements of class \<^verbatim>\<open>non-core-node\<close>, those
  whose group is not \<^verbatim>\<open>core_flow\<close> (line 643). It also restarts the force simulation
  of the library, which is outside this model.
\<close>

definition toggleNonCoreElem :: "bool \<Rightarrow> nodeElem \<Rightarrow> node \<Rightarrow> nodeElem" where
  "toggleNonCoreElem showNonCore e n =
     (if node_group n \<noteq> ''core_flow''
      then e\<lparr>el_hidden := \<not> showNonCore,
             el_opacity := (if showNonCore then 1 else 0),
             el_pointer := showNonCore\<rparr>
      else e)"

definition toggleNonCoreNodes :: "bool \<Rightarrow> vstate \<Rightarrow> vstate" where
  "toggleNonCoreNodes showNonCore s =
     s\<lparr>nodeGroup := map2 (toggleNonCoreElem showNonCore) (nodeGroup s) (nodes s)\<rparr>"

text \<open>The \<^verbatim>\<open>change\<close> listener of a category checkbox (lines 1926-1939).\<close>

definition categoryChanged :: "string \<Rightarrow> bool \<Rightarrow> vstate \<Rightarrow> vstate" where
  "categoryChanged category isChecked s =
     toggleCategoryVisibility category isChecked
       (s\<lparr>categoryCheckboxes :=
            map (\<lambda>cb. if fst cb = category then (category, isChecked) else cb)
                (categoryCheckboxes s)\<rparr>)"

section \<open>Initialization (lines 50-71, 174-180, 538-647, 1701-1794, 2154-2173)\<close>

definition initializeJourney :: "vstate \<Rightarrow> vstate" where
  "initializeJourney s =
     s\<lparr>nodeGroup :=
         map2 (\<lambda>e n. e\<lparr>el_opacity := (if node_id n = ''environment'' then 1 else 0),
                        el_pointer := (node_id n = ''environment'')\<rparr>)
              (nodeGroup s) (nodes s)\<rparr>"

text \<open>
  Lines 1813-1923: a checkbox is added, checked, for every group of the data that has
  none; then the state of each checkbox is applied to its category when the data has it.
\<close>

definition setupCategoryToggles :: "vstate \<Rightarrow> vstate" where
  "setupCategoryToggles s =
     (let nodeGroups = newSet (map node_group (nodes s));
          existing = categoryCheckboxes s;
          allCheckboxes = existing @
            map (\<lambda>g. (g, True)) (filter (\<lambda>g. g \<notin> fst ` set existing) nodeGroups)
      in foldl (\<lambda>s' cb. if fst cb \<in> set nodeGroups
                         then toggleCategoryVisibility (fst cb) (snd cb) s' else s')
               (s\<lparr>categoryCheckboxes := allCheckboxes\<rparr>) allCheckboxes)"

text \<open>
  The \<^verbatim>\<open>opacity\<close> callback of the links (lines 558-571) for one link: it reads
  \<^verbatim>\<open>d.source.id\<close> and \<^verbatim>\<open>d.target.id\<close>, looks both node elements up by \<^verbatim>\<open>data-id\<close> in
  the document \<open>doc\<close> (the \<^verbatim>\<open>data-id\<close> and the class \<^verbatim>\<open>hidden\<close> of each node element)
  and hides the link when one is absent or hidden. \<^verbatim>\<open>drawLinks\<close> is the join of lines
  539-585, made before any node element exists.
\<close>

definition linkOpacity :: "(string \<times> bool) list \<Rightarrow> node list \<Rightarrow> rlink \<Rightarrow> error + real" where
  "linkOpacity doc ns d =
     bindE (endpointId ns (link_source d)) (\<lambda>sid.
     bindE (endpointId ns (link_target d)) (\<lambda>tid.
       case map_of doc sid of
         None \<Rightarrow> Inr 0
       | Some sourceHidden \<Rightarrow>
           (case map_of doc tid of
              None \<Rightarrow> Inr 0
            | Some targetHidden \<Rightarrow> Inr (if sourceHidden \<or> targetHidden then 0 else 0.6))))"

fun mapE :: "('a \<Rightarrow> error + 'b) \<Rightarrow> 'a list \<Rightarrow> error + 'b list" where
  "mapE f [] = Inr []"
| "mapE f (a # as) = bindE (f a) (\<lambda>b. bindE (mapE f as) (\<lambda>bs. Inr (b # bs)))"

definition drawLinks :: "node list \<Rightarrow> rlink list \<Rightarrow> error + real list" where
  "drawLinks ns ls = mapE (linkOpacity [] ns) ls"

text \<open>
  \<^verbatim>\<open>initializeVisualization()\<close>, from the positioned nodes and the resolved links. Drawing
  the links comes first, so one unresolved endpoint makes the whole initialization
  throw (the link force of the library, set up at line 519 just before, is handed the
  same links and is not modelled). A node without group is filed under
  \<^verbatim>\<open>uncategorized\<close> (lines 639-642). \<open>regen\<close>, \<open>noncore\<close> and \<open>checkboxes\<close> are the states
  of the controls of index.html when the script runs (there: unchecked, checked, and
  eight categories all checked). The calls are those of lines 1702, 1766, 1791, 1794,
  2155 and 2173. \<^verbatim>\<open>toggleNonCoreNodes\<close> (line 1791) and \<^verbatim>\<open>setupCategoryToggles\<close>
  (line 1794) write their styles in transitions, which end after the last
  \<^verbatim>\<open>initializeJourney\<close> (line 2173) has written its styles directly; so their styles
  are the ones that stay, and the page that has loaded shows every node of a checked
  category. The class \<^verbatim>\<open>hidden\<close>, which the two set at once, is read by nothing in
  between.
\<close>

definition initializeVisualization ::
  "bool \<Rightarrow> bool \<Rightarrow> (string \<times> bool) list \<Rightarrow> (nat \<Rightarrow> real) \<Rightarrow> real \<Rightarrow> real \<Rightarrow>
   node list \<Rightarrow> rlink list \<Rightarrow> error + vstate" where
  "initializeVisualization regen noncore checkboxes rnd w h ns ls =
     bindE (drawLinks ns ls) (\<lambda>opacities.
        (let ns1 = map (\<lambda>n. if node_group n = [] then n\<lparr>node_group := ''uncategorized''\<rparr> else n) ns;
             s0 = \<lparr> nodes = ns1, links = ls, width = w, height = h,
                    isJourneyExpanded = False, expandedNodes = newSet [''environment''],
                    currentView = ''default'', regenChecked = regen,
                    categoryCheckboxes = checkboxes,
                    currentlySelectedNodeData = None, currentlySelectedNodeElement = None,
                    detailsPanel = PanelDefault,
                    nodeGroup = map (\<lambda>n. \<lparr> el_hidden = False, el_opacity = 1, el_pointer = True,
                                            el_selected = False, el_transform = (None, None) \<rparr>) ns1,
                    linkElems = map (\<lambda>l. \<lparr> le_animated = False, le_animation = [] \<rparr>) ls,
                    mindMapLinks = [], exampleNodes = [], treeLinks = [],
                    continueButton = None, randoms = rnd, randomCount = 0 \<rparr>
         in bindE (applyViewMode ''default'' (initializeJourney s0)) (\<lambda>s1.
            bindE (setInitialPositions s1) (\<lambda>s2.
              Inr (setupCategoryToggles (toggleNonCoreNodes noncore (initializeJourney s2)))))))"

definition htmlCheckboxes :: "(string \<times> bool) list" where
  "htmlCheckboxes =
     [(''core_flow'', True), (''subsystem'', True), (''community'', True), (''policy'', True),
      (''health'', True), (''economic'', True), (''factor'', True), (''monitoring'', True)]"

text \<open>
  What \<^verbatim>\<open>initPage\<close> does with an accepted dataset (lines 52-67), for the controls as
  index.html declares them; \<open>Inl\<close> is the branch of \<^verbatim>\<open>.catch\<close>, which replaces the
  visualization by an error message.
\<close>

definition initPage :: "(nat \<Rightarrow> real) \<Rightarrow> real \<Rightarrow> real \<Rightarrow> node list \<Rightarrow> rawlink list \<Rightarrow> error + vstate" where
  "initPage rnd w h dataNodes dataLinks =
     (let ns = positionNodes dataNodes w h;
          ls = processLinks ns dataLinks
      in initializeVisualization False True htmlCheckboxes rnd w h ns ls)"

text \<open>
  The \<^verbatim>\<open>data.json\<close> of a typed dataset, with the properties the loader reads. A property
  whose text is empty is absent from the object, so a node or link that lacks a field
  is one with the empty text there (both are falsy, and \<^verbatim>\<open>undefined\<close> as a key of the
  id map finds the node whose id is \<^verbatim>\<open>undefined\<close>).
\<close>

definition property :: "string \<Rightarrow> string \<Rightarrow> (string \<times> jsval) list" where
  "property k v = (if v = [] then [] else [(k, Str v)])"

definition nodeJson :: "node \<Rightarrow> jsval" where
  "nodeJson n =
     Obj (property ''id'' (node_id n) @ property ''group'' (node_group n) @
          property ''label'' (node_label n))"

definition linkJson :: "rawlink \<Rightarrow> jsval" where
  "linkJson l =
     Obj (property ''source'' (link_source l) @ property ''target'' (link_target l) @
          property ''type'' (link_type l) @
          (case link_examples l of None \<Rightarrow> [] | Some xs \<Rightarrow> [(''examples'', Arr (map Str xs))]))"

definition dataJson :: "node list \<Rightarrow> rawlink list \<Rightarrow> jsval" where
  "dataJson ns ls = payload (map nodeJson ns) (map linkJson ls) []"

text \<open>
  \<^verbatim>\<open>initPage\<close> from the answer to \<^verbatim>\<open>fetch('data.json')\<close> on (lines 51-71), for a
  \<^verbatim>\<open>data.json\<close> that holds the typed dataset: \<^verbatim>\<open>loadFoodSystemData\<close> on the JSON value,
  then the handler of \<^verbatim>\<open>.then\<close> on the dataset. \<open>Inl\<close> is the branch of \<^verbatim>\<open>.catch\<close>: the
  page shows \<^verbatim>\<open>Error loading data\<close> with the message, and no diagram.
\<close>

definition loadPage :: "(nat \<Rightarrow> real) \<Rightarrow> real \<Rightarrow> real \<Rightarrow> node list \<Rightarrow> rawlink list \<Rightarrow> error + vstate" where
  "loadPage rnd w h dataNodes dataLinks =
     bindE (loadFoodSystemData (Response True (Inr (dataJson dataNodes dataLinks)))) (\<lambda>data.
       initPage rnd w h dataNodes dataLinks)"

section \<open>Observations and invariant\<close>

text \<open>A node without its position, and without position and pin; an element without its place.\<close>

definition unplaced :: "node \<Rightarrow> node" where
  "unplaced n = n\<lparr>node_x := None, node_y := None\<rparr>"

definition unpinned :: "node \<Rightarrow> node" where
  "unpinned n = n\<lparr>node_x := None, node_y := None, node_fx := None, node_fy := None\<rparr>"

definition unmoved :: "nodeElem \<Rightarrow> nodeElem" where
  "unmoved e = e\<lparr>el_transform := (None, None)\<rparr>"

text \<open>
  What holds of every state of a page that has loaded: one element per node and per
  link, every link endpoint a node of the array, the selected element that of a node of
  the array and of the selected node.
\<close>

definition inRange :: "nat \<Rightarrow> nat option \<Rightarrow> bool" where
  "inRange k r = (case r of None \<Rightarrow> False | Some i \<Rightarrow> i < k)"

definition selectionOk :: "nat \<Rightarrow> nat option \<Rightarrow> bool" where
  "selectionOk k r = (case r of None \<Rightarrow> True | Some i \<Rightarrow> i < k)"

definition wellFormed :: "vstate \<Rightarrow> bool" where
  "wellFormed s \<longleftrightarrow>
     length (nodeGroup s) = length (nodes s) \<and>
     length (linkElems s) = length (links s) \<and>
     list_all (\<lambda>l. inRange (length (nodes s)) (link_source l) \<and>
                    inRange (length (nodes s)) (link_target l)) (links s) \<and>
     selectionOk (length (nodes s)) (currentlySelectedNodeElement s) \<and>
     currentlySelectedNodeData s = currentlySelectedNodeElement s"

text \<open>The part of a state that the filter controls leave alone.\<close>

definition framed :: "vstate \<Rightarrow> vstate \<Rightarrow> bool" where
  "framed s t \<longleftrightarrow>
     nodes t = nodes s \<and> links t = links s \<and> linkElems t = linkElems s \<and>
     currentlySelectedNodeData t = currentlySelectedNodeData s \<and>
     currentlySelectedNodeElement t = currentlySelectedNodeElement s \<and>
     (length (nodeGroup s) = length (nodes s) \<longrightarrow> length (nodeGroup t) = length (nodes s))"

text \<open>The ids of the nodes that are drawn and take clicks, in array order.\<close>

definition visibleIds :: "vstate \<Rightarrow> string list" where
  "visibleIds s = map (node_id \<circ> snd) (filter (rendered \<circ> fst) (zip (nodeGroup s) (nodes s)))"

text \<open>A sequence of events, stopped by the first that throws.\<close>

fun run :: "(vstate \<Rightarrow> error + vstate) list \<Rightarrow> error + vstate \<Rightarrow> error + vstate" where
  "run [] r = r"
| "run (ev # evs) r = run evs (bindE r ev)"

text \<open>An observation of an outcome.\<close>

definition observe :: "(vstate \<Rightarrow> 'a) \<Rightarrow> error + vstate \<Rightarrow> error + 'a" where
  "observe f r = (case r of Inl e \<Rightarrow> Inl e | Inr s \<Rightarrow> Inr (f s))"

section \<open>Datasets and states of the examples\<close>

text \<open>A node and a link as a dataset gives them, with the fields that matter here.\<close>

definition mkNode :: "string \<Rightarrow> string \<Rightarrow> node" where
  "mkNode k g =
     \<lparr> node_id = k, node_group = g, node_label = k, node_icon = [], node_details = [],
       node_regen_details = None, node_isRegenModified = False,
       node_x = None, node_y = None, node_fx = None, node_fy = None \<rparr>"

definition mkLink :: "string \<Rightarrow> string \<Rightarrow> string \<Rightarrow> rawlink" where
  "mkLink a b t =
     \<lparr> link_source = a, link_target = b, link_type = t, link_examples = None,
       link_isReturn = False, link_isRegenHighlight = False \<rparr>"

text \<open>\<^verbatim>\<open>Math.random()\<close> returning one half every time; a collation that leaves the order.\<close>

definition halfRandom :: "nat \<Rightarrow> real" where
  "halfRandom k = 0.5"

definition anyOrder :: "string \<Rightarrow> string \<Rightarrow> bool" where
  "anyOrder a b = True"

text \<open>The page loaded in a window of 1000 by 800.\<close>

definition loaded :: "node list \<Rightarrow> rawlink list \<Rightarrow> error + vstate" where
  "loaded ns ls = initPage halfRandom 1000 800 ns ls"

text \<open>Events as steps of \<open>run\<close>.\<close>

text \<open>
  A click at the circle of node \<open>d\<close>: the circle takes it when its element takes pointer
  events, otherwise it falls through to the SVG. \<^verbatim>\<open>nodeClicked\<close> stops the propagation
  of the click it handles (lines 861 and 1320), so the SVG handler does not run after it.
\<close>

definition click :: "nat \<Rightarrow> vstate \<Rightarrow> error + vstate" where
  "click d s =
     (if shownPointer (nodeGroup s ! d) then nodeClicked anyOrder d s else svgClick False s)"

definition check :: "string \<Rightarrow> bool \<Rightarrow> vstate \<Rightarrow> error + vstate" where
  "check category isChecked s = Inr (categoryChanged category isChecked s)"

text \<open>Where the element of node \<open>i\<close> is drawn, and where the node is pinned.\<close>

definition placeOf :: "nat \<Rightarrow> vstate \<Rightarrow> real option \<times> real option" where
  "placeOf i s = el_transform (nodeGroup s ! i)"

definition pinOf :: "nat \<Rightarrow> vstate \<Rightarrow> real option \<times> real option" where
  "pinOf i s = (node_fx (nodes s ! i), node_fy (nodes s ! i))"

text \<open>The state an outcome holds; the empty page stands for an outcome that is an error.\<close>

definition blank :: vstate where
  "blank =
     \<lparr> nodes = [], links = [], width = 0, height = 0, isJourneyExpanded = False,
       expandedNodes = [], currentView = [], regenChecked = False, categoryCheckboxes = [],
       currentlySelectedNodeData = None, currentlySelectedNodeElement = None,
       detailsPanel = PanelDefault, nodeGroup = [], linkElems = [], mindMapLinks = [],
       exampleNodes = [], treeLinks = [], continueButton = None, randoms = halfRandom,
       randomCount = 0 \<rparr>"

definition stateOf :: "error + vstate \<Rightarrow> vstate" where
  "stateOf r = (case r of Inl e \<Rightarrow> blank | Inr s \<Rightarrow> s)"

text \<open>Two nodes joined by one flow link.\<close>

definition twoNodes :: "node list" where
  "twoNodes = [mkNode ''environment'' ''factor'', mkNode ''production'' ''core_flow'']"

definition twoLinks :: "rawlink list" where
  "twoLinks = [mkLink ''environment'' ''production'' ''flow'']"

text \<open>The page after the first click on \<^verbatim>\<open>environment\<close>, and after a click on \<^verbatim>\<open>production\<close>.\<close>

definition twoExpanded :: vstate where
  "twoExpanded = stateOf (run [click 0] (loaded twoNodes twoLinks))"

definition twoFocused :: vstate where
  "twoFocused = stateOf (run [click 0, click 1] (loaded twoNodes twoLinks))"

text \<open>A chain of three nodes: the journey is under way until the third is shown.\<close>

definition threeNodes :: "node list" where
  "threeNodes =
     [mkNode ''environment'' ''factor'', mkNode ''production'' ''core_flow'',
      mkNode ''consumption'' ''core_flow'']"

definition threeLinks :: "rawlink list" where
  "threeLinks =
     [mkLink ''environment'' ''production'' ''flow'', mkLink ''production'' ''consumption'' ''flow'']"

definition threeFocused :: vstate where
  "threeFocused = stateOf (run [click 0, click 1] (loaded threeNodes threeLinks))"

text \<open>
  \<^verbatim>\<open>environment\<close> without any link, beside two linked nodes; the page after the first click
  on \<^verbatim>\<open>environment\<close>.
\<close>

definition lonelyNodes :: "node list" where
  "lonelyNodes =
     [mkNode ''environment'' ''factor'', mkNode ''production'' ''core_flow'',
      mkNode ''consumption'' ''core_flow'']"

definition lonelyLinks :: "rawlink list" where
  "lonelyLinks = [mkLink ''production'' ''consumption'' ''flow'']"

definition lonelyExpanded :: vstate where
  "lonelyExpanded = stateOf (run [click 0] (loaded lonelyNodes lonelyLinks))"

text \<open>A link whose target is no node of the dataset.\<close>

definition ghostNodes :: "node list" where
  "ghostNodes = [mkNode ''environment'' ''core_flow'']"

definition ghostLinks :: "rawlink list" where
  "ghostLinks = [mkLink ''environment'' ''ghost'' ''flow'']"

text \<open>A node two hops from \<^verbatim>\<open>environment\<close>, the links in one order and in the other.\<close>

definition chainNodes :: "node list" where
  "chainNodes =
     [mkNode ''environment'' ''factor'', mkNode ''water'' ''factor'',
      mkNode ''irrigation'' ''subsystem'']"

definition chainLinks :: "rawlink list" where
  "chainLinks =
     [mkLink ''environment'' ''water'' ''influence'', mkLink ''water'' ''irrigation'' ''influence'']"

text \<open>The two links of the specification's scenario, between the same pair.\<close>

definition pairNodes :: "node list" where
  "pairNodes = [mkNode ''a'' ''core_flow'', mkNode ''b'' ''core_flow'']"

definition pairLinks :: "rawlink list" where
  "pairLinks = [mkLink ''a'' ''b'' ''flow'', mkLink ''b'' ''a'' ''flow'']"

text \<open>Two nodes that share the id \<^verbatim>\<open>environment\<close>, told apart by their labels.\<close>

definition dupNodes :: "node list" where
  "dupNodes =
     [(mkNode ''environment'' ''factor'')\<lparr>node_label := ''first''\<rparr>,
      mkNode ''production'' ''core_flow'',
      (mkNode ''environment'' ''factor'')\<lparr>node_label := ''second''\<rparr>]"

definition dupLinks :: "rawlink list" where
  "dupLinks = [mkLink ''environment'' ''production'' ''flow'']"

text \<open>
  A dataset whose first node and first link are complete; the second node has neither
  group nor label, and the second link has no target. Without the second link every
  link resolves.
\<close>

definition patchyNodes :: "node list" where
  "patchyNodes = [mkNode ''environment'' ''factor'', (mkNode ''production'' [])\<lparr>node_label := []\<rparr>]"

definition patchyLinks :: "rawlink list" where
  "patchyLinks =
     [mkLink ''environment'' ''production'' ''flow'', mkLink ''production'' [] ''flow'']"

section \<open>Auxiliary lemmas\<close>

subsection \<open>The loader\<close>











subsection \<open>Layout changes positions only\<close>

lemma map_update_same:
  assumes "f v = f (xs ! i)"
  shows "map f (xs[i := v]) = map f xs"
proof (cases "i < length xs")
  case True
  have "map f (xs[i := v]) = (map f xs)[i := f v]" by (rule map_update)
  also have "\<dots> = (map f xs)[i := map f xs ! i]" using True assms by simp
  also have "\<dots> = map f xs" by (rule list_update_id)
  finally show ?thesis .
next
  case False
  then have "length xs \<le> i" by arith
  then have "xs[i := v] = xs" by (rule list_update_beyond)
  then show ?thesis by (rule arg_cong)
qed

lemma unplaced_update [simp]: "unplaced (n\<lparr>node_x := a, node_y := b\<rparr>) = unplaced n"
  by (simp add: unplaced_def)

lemma unplaced_setXY [simp]: "map unplaced (setXY i px py ns) = map unplaced ns"
  unfolding setXY_def by (rule map_update_same) simp

lemma unplaced_placeFirst [simp]: "map unplaced (placeFirst p px py ns) = map unplaced ns"
  by (simp add: placeFirst_def split: option.splits)

lemma unplaced_placeStage [simp]: "map unplaced (placeStage a b c ns e) = map unplaced ns"
  by (simp add: placeStage_def split: option.splits)

lemma unplaced_foldl:
  assumes "\<And>ms e. map unplaced (f ms e) = map unplaced ms"
  shows "map unplaced (foldl f ns es) = map unplaced ns"
  by (induction es arbitrary: ns) (simp_all add: assms)

lemma unplaced_placeFactor [simp]: "map unplaced (placeFactor w t ns e) = map unplaced ns"
  by (simp add: placeFactor_def)

lemma unplaced_placeWaste [simp]: "unplaced (placeWaste a b c n) = unplaced n"
  by (simp add: placeWaste_def)

lemma placeRemaining_fst:
  "map unplaced (fst (placeRemaining rnd w h acc n)) = map unplaced (fst acc) @ [unplaced n]"
  by (simp add: placeRemaining_def Let_def)

lemma foldl_placeRemaining:
  "map unplaced (fst (foldl (placeRemaining rnd w h) acc ns)) =
   map unplaced (fst acc) @ map unplaced ns"
  by (induction ns arbitrary: acc) (simp_all add: placeRemaining_fst)

lemma unplaced_initialLayout: "map unplaced (fst (initialLayout rnd c w h ns)) = map unplaced ns"
  by (simp add: initialLayout_def Let_def foldl_placeRemaining unplaced_foldl o_def)

lemma unplaced_positionCategory [simp]: "map unplaced (positionCategory w h ns e) = map unplaced ns"
  unfolding positionCategory_def Let_def
  by (rule unplaced_foldl) (simp add: split_def)

lemma unplaced_positionNodes: "map unplaced (positionNodes ns w h) = map unplaced ns"
  unfolding positionNodes_def Let_def
  by (rule unplaced_foldl) simp

lemma unplaced_placeIfExpanded [simp]:
  "map unplaced (placeIfExpanded ex k px py ns) = map unplaced ns"
  by (simp add: placeIfExpanded_def)

text \<open>What equal lists of unplaced nodes share.\<close>

lemma unplaced_fields [simp]:
  "node_id (unplaced n) = node_id n" "node_group (unplaced n) = node_group n"
  "node_fx (unplaced n) = node_fx n" "node_fy (unplaced n) = node_fy n"
  "node_label (unplaced n) = node_label n"
  "node_isRegenModified (unplaced n) = node_isRegenModified n"
  by (simp_all add: unplaced_def)

lemma unplaced_length: "map unplaced ns = map unplaced ms \<Longrightarrow> length ns = length ms"
  by (rule map_eq_imp_length_eq)

lemma unplaced_nth:
  assumes "map unplaced ns = map unplaced ms" "i < length ms"
  shows "unplaced (ns ! i) = unplaced (ms ! i)"
proof -
  have "length ns = length ms" using assms(1) by (rule unplaced_length)
  with assms have "map unplaced ns ! i = map unplaced ms ! i" by simp
  with assms(2) \<open>length ns = length ms\<close> show ?thesis by simp
qed

lemma unplaced_nth_id:
  assumes "map unplaced ns = map unplaced ms" "i < length ms"
  shows "node_id (ns ! i) = node_id (ms ! i)" "node_group (ns ! i) = node_group (ms ! i)"
    "node_fx (ns ! i) = node_fx (ms ! i)" "node_fy (ns ! i) = node_fy (ms ! i)"
proof -
  from unplaced_nth [OF assms] have e: "unplaced (ns ! i) = unplaced (ms ! i)" .
  from e have "node_id (unplaced (ns ! i)) = node_id (unplaced (ms ! i))" by simp
  then show "node_id (ns ! i) = node_id (ms ! i)" by simp
  from e have "node_group (unplaced (ns ! i)) = node_group (unplaced (ms ! i))" by simp
  then show "node_group (ns ! i) = node_group (ms ! i)" by simp
  from e have "node_fx (unplaced (ns ! i)) = node_fx (unplaced (ms ! i))" by simp
  then show "node_fx (ns ! i) = node_fx (ms ! i)" by simp
  from e have "node_fy (unplaced (ns ! i)) = node_fy (unplaced (ms ! i))" by simp
  then show "node_fy (ns ! i) = node_fy (ms ! i)" by simp
qed

lemma unplaced_map_id:
  assumes "map unplaced ns = map unplaced ms"
  shows "map node_id ns = map node_id ms"
proof -
  have "map (node_id \<circ> unplaced) ns = map (node_id \<circ> unplaced) ms"
    using assms by (metis map_map)
  then show ?thesis by (simp add: o_def)
qed

subsection \<open>Nothing throws when every link is resolved\<close>

lemma bindE_Inr [simp]: "bindE (Inr v) f = f v"
  by (simp add: bindE_def)

lemma bindE_Inl [simp]: "bindE (Inl e) f = Inl e"
  by (simp add: bindE_def)

lemma endpointId_Some [simp]: "endpointId ns (Some i) = Inr (node_id (ns ! i))"
  by (simp add: endpointId_def)

lemma endpointId_None [simp]: "endpointId ns None = Inl TypeError"
  by (simp add: endpointId_def)

lemma resolvedE:
  assumes "resolved l"
  obtains i j where "link_source l = Some i" "link_target l = Some j"
  using assms by (auto simp: resolved_def)

lemma foldE_total:
  assumes "\<And>s a. a \<in> set as \<Longrightarrow> \<exists>s'. f s a = Inr s'"
  shows "\<exists>s'. foldE f s as = Inr s'"
  using assms
proof (induction as arbitrary: s)
  case Nil
  then show ?case by simp
next
  case (Cons a as)
  from Cons.prems [of a s] obtain s1 where s1: "f s a = Inr s1" by auto
  from Cons.IH [of s1] Cons.prems obtain s2 where "foldE f s1 as = Inr s2" by auto
  with s1 show ?case by simp
qed

lemma foldE_invariant:
  assumes "foldE f s as = Inr s'" "P s"
    and "\<And>t a t'. a \<in> set as \<Longrightarrow> P t \<Longrightarrow> f t a = Inr t' \<Longrightarrow> P t'"
  shows "P s'"
  using assms
proof (induction as arbitrary: s)
  case Nil
  then show ?case by simp
next
  case (Cons a as)
  from Cons.prems(1) obtain s1 where s1: "f s a = Inr s1" and rest: "foldE f s1 as = Inr s'"
    by (cases "f s a") auto
  have "P s1" using Cons.prems(3) [of a s s1] Cons.prems(2) s1 by simp
  show ?case
  proof (rule Cons.IH [OF rest \<open>P s1\<close>])
    fix t b t' assume "b \<in> set as" "P t" "f t b = Inr t'"
    then show "P t'" using Cons.prems(3) [of b t t'] by simp
  qed
qed

lemma connectedStep_resolved:
  assumes "resolved l"
  shows "\<exists>s'. connectedStep ns s l = Inr s'"
proof -
  from assms obtain i j where "link_source l = Some i" "link_target l = Some j"
    by (rule resolvedE)
  then show ?thesis by (simp add: connectedStep_def)
qed

lemma findConnectedNodes_total:
  assumes "list_all resolved ls"
  shows "\<exists>conn. findConnectedNodes ns ls start = Inr conn"
  unfolding findConnectedNodes_def
  by (rule foldE_total) (use assms in \<open>auto simp: list_all_iff intro: connectedStep_resolved\<close>)

lemma set_setAdd [simp]: "set (setAdd v s) = insert v (set s)"
  by (auto simp: setAdd_def)

lemma set_newSet_aux: "set (foldl (\<lambda>s v. setAdd v s) acc vs) = set acc \<union> set vs"
  by (induction vs arbitrary: acc) auto

lemma set_newSet [simp]: "set (newSet vs) = set vs"
  by (simp add: newSet_def set_newSet_aux)

lemma connectionsStep_resolved:
  assumes "resolved l"
  shows "\<exists>s'. connectionsStep ns k s l = Inr s'"
proof -
  from assms obtain i j where "link_source l = Some i" "link_target l = Some j"
    by (rule resolvedE)
  then show ?thesis by (simp add: connectionsStep_def)
qed

lemma findNodeConnections_total:
  assumes "list_all resolved ls"
  shows "\<exists>conn. findNodeConnections ns ls k = Inr conn"
  unfolding findNodeConnections_def
  by (rule foldE_total) (use assms in \<open>auto simp: list_all_iff intro: connectionsStep_resolved\<close>)

lemma placeJourneyNode_result:
  assumes "list_all resolved ls"
  shows "\<exists>acc'. placeJourneyNode rnd positions ex ns ls acc n = Inr acc' \<and>
           map unplaced (fst acc') = map unplaced (fst acc) @ [unplaced n]"
proof -
  from findNodeConnections_total [OF assms] obtain conn
    where "findNodeConnections ns ls (node_id n) = Inr conn" by blast
  then show ?thesis
    by (simp add: placeJourneyNode_def split: option.splits)
qed

lemma foldE_placeJourneyNode:
  assumes "list_all resolved ls"
  shows "\<exists>acc'. foldE (placeJourneyNode rnd positions ex ns ls) acc ms = Inr acc' \<and>
           map unplaced (fst acc') = map unplaced (fst acc) @ map unplaced ms"
proof (induction ms arbitrary: acc)
  case Nil
  then show ?case by simp
next
  case (Cons m ms)
  from placeJourneyNode_result [OF assms] obtain acc1
    where a1: "placeJourneyNode rnd positions ex ns ls acc m = Inr acc1"
      and u1: "map unplaced (fst acc1) = map unplaced (fst acc) @ [unplaced m]" by blast
  from Cons.IH [of acc1] obtain acc2
    where a2: "foldE (placeJourneyNode rnd positions ex ns ls) acc1 ms = Inr acc2"
      and u2: "map unplaced (fst acc2) = map unplaced (fst acc1) @ map unplaced ms" by blast
  from a1 a2 u1 u2 show ?case by simp
qed

lemma placeJourneyNodes_result:
  assumes "list_all resolved (links s)"
  shows "\<exists>ns c. placeJourneyNodes positions s = Inr (s\<lparr>nodes := ns, randomCount := c\<rparr>) \<and>
           map unplaced ns = map unplaced (nodes s)"
proof -
  from foldE_placeJourneyNode [OF assms, of "randoms s" positions "expandedNodes s" "nodes s"
      "([], randomCount s)" "nodes s"]
  obtain acc' where
    "foldE (placeJourneyNode (randoms s) positions (expandedNodes s) (nodes s) (links s))
       ([], randomCount s) (nodes s) = Inr acc'"
    "map unplaced (fst acc') = map unplaced (nodes s)" by auto
  then show ?thesis by (auto simp: placeJourneyNodes_def)
qed

lemma updatePositions_resolved:
  "list_all resolved (links s) \<Longrightarrow>
   updatePositions s = Inr (s\<lparr>nodeGroup := map2 moveTo (nodeGroup s) (nodes s)\<rparr>)"
  by (simp add: updatePositions_def)

lemma setInitialPositions_result:
  assumes "list_all resolved (links s)"
  shows "\<exists>ns c. setInitialPositions s =
           Inr (s\<lparr>nodes := ns, randomCount := c, nodeGroup := map2 moveTo (nodeGroup s) ns\<rparr>) \<and>
           map unplaced ns = map unplaced (nodes s)"
  using assms
  by (auto simp: setInitialPositions_def Let_def updatePositions_def unplaced_initialLayout)

subsection \<open>Elements\<close>

lemma map2_nth:
  assumes "i < length xs" "length xs = length ys"
  shows "map2 f xs ys ! i = f (xs ! i) (ys ! i)"
  using assms by simp

lemma length_map2 [simp]: "length xs = length ys \<Longrightarrow> length (map2 f xs ys) = length ys"
  by simp

lemma unmoved_moveTo [simp]: "unmoved (moveTo e n) = unmoved e"
  by (simp add: unmoved_def moveTo_def)

lemma unmoved_fields [simp]:
  "el_hidden (unmoved e) = el_hidden e" "el_opacity (unmoved e) = el_opacity e"
  "el_pointer (unmoved e) = el_pointer e" "el_selected (unmoved e) = el_selected e"
  by (simp_all add: unmoved_def)

lemma unmoved_map2_moveTo:
  assumes "length g = length ns"
  shows "map unmoved (map2 moveTo g ns) = map unmoved g"
  using assms
proof (induction g arbitrary: ns)
  case Nil
  then show ?case by simp
next
  case (Cons e g)
  then obtain n ms where "ns = n # ms" by (cases ns) auto
  with Cons show ?case by simp
qed

lemma unmoved_nth:
  assumes "map unmoved g = map unmoved h" "i < length h"
  shows "el_hidden (g ! i) = el_hidden (h ! i)" "el_opacity (g ! i) = el_opacity (h ! i)"
    "el_pointer (g ! i) = el_pointer (h ! i)" "el_selected (g ! i) = el_selected (h ! i)"
proof -
  have len: "length g = length h" using assms(1) by (rule map_eq_imp_length_eq)
  with assms have "map unmoved g ! i = map unmoved h ! i" by simp
  with assms(2) len have e: "unmoved (g ! i) = unmoved (h ! i)" by simp
  from e have "el_hidden (unmoved (g ! i)) = el_hidden (unmoved (h ! i))" by simp
  then show "el_hidden (g ! i) = el_hidden (h ! i)" by simp
  from e have "el_opacity (unmoved (g ! i)) = el_opacity (unmoved (h ! i))" by simp
  then show "el_opacity (g ! i) = el_opacity (h ! i)" by simp
  from e have "el_pointer (unmoved (g ! i)) = el_pointer (unmoved (h ! i))" by simp
  then show "el_pointer (g ! i) = el_pointer (h ! i)" by simp
  from e have "el_selected (unmoved (g ! i)) = el_selected (unmoved (h ! i))" by simp
  then show "el_selected (g ! i) = el_selected (h ! i)" by simp
qed

lemma wellFormed_resolved: "wellFormed s \<Longrightarrow> list_all resolved (links s)"
  by (auto simp: wellFormed_def list_all_iff resolved_def inRange_def split: option.splits)

lemma wellFormed_length: "wellFormed s \<Longrightarrow> length (nodeGroup s) = length (nodes s)"
  by (simp add: wellFormed_def)

subsection \<open>One step of the journey\<close>

lemma continueFoodJourney_result:
  assumes res: "list_all resolved (links s)" and len: "length (nodeGroup s) = length (nodes s)"
  shows "\<exists>conn ns c g.
           findConnectedNodes (nodes s) (links s) (fst (stagesOf s ! nextStageIndex s)) = Inr conn \<and>
           map unplaced ns = map unplaced (nodes s) \<and>
           map unmoved g = map unmoved (nodeGroup s) \<and>
           continueFoodJourney s =
             Inr (showStage (nextStageIndex s)
                    (s\<lparr>expandedNodes := newSet (newSet (fst (stagesOf s ! nextStageIndex s)) @ conn),
                       nodes := ns, randomCount := c, nodeGroup := g\<rparr>))"
proof -
  let ?core = "fst (stagesOf s ! nextStageIndex s)"
  from findConnectedNodes_total [OF res] obtain conn
    where conn: "findConnectedNodes (nodes s) (links s) ?core = Inr conn" by blast
  let ?s1 = "s\<lparr>expandedNodes := newSet (newSet ?core @ conn)\<rparr>"
  have res1: "list_all resolved (links ?s1)" using res by simp
  show ?thesis
  proof (cases "snd (stagesOf s ! nextStageIndex s)")
    case None
    from setInitialPositions_result [OF res1] obtain ns c where
      sip: "setInitialPositions ?s1 =
              Inr (?s1\<lparr>nodes := ns, randomCount := c, nodeGroup := map2 moveTo (nodeGroup ?s1) ns\<rparr>)"
      and u: "map unplaced ns = map unplaced (nodes ?s1)" by blast
    have lns: "length ns = length (nodes s)" using u by (auto dest: unplaced_length)
    let ?g = "map2 moveTo (map2 moveTo (nodeGroup s) ns) ns"
    have "map unmoved ?g = map unmoved (map2 moveTo (nodeGroup s) ns)"
      by (rule unmoved_map2_moveTo) (simp add: len lns)
    also have "\<dots> = map unmoved (nodeGroup s)"
      by (rule unmoved_map2_moveTo) (simp add: len lns)
    finally have g: "map unmoved ?g = map unmoved (nodeGroup s)" .
    have "continueFoodJourney s =
            Inr (showStage (nextStageIndex s)
                   (s\<lparr>expandedNodes := newSet (newSet ?core @ conn),
                      nodes := ns, randomCount := c, nodeGroup := ?g\<rparr>))"
      using conn None sip res by (simp add: continueFoodJourney_def Let_def updatePositions_def)
    moreover have "map unplaced ns = map unplaced (nodes s)" using u by simp
    ultimately show ?thesis using conn g by blast
  next
    case (Some positions)
    from placeJourneyNodes_result [OF res1, of positions] obtain ns c where
      pj: "placeJourneyNodes positions ?s1 = Inr (?s1\<lparr>nodes := ns, randomCount := c\<rparr>)"
      and u: "map unplaced ns = map unplaced (nodes ?s1)" by blast
    have lns: "length ns = length (nodes s)" using u by (auto dest: unplaced_length)
    let ?g = "map2 moveTo (nodeGroup s) ns"
    have g: "map unmoved ?g = map unmoved (nodeGroup s)"
      by (rule unmoved_map2_moveTo) (simp add: len lns)
    have "continueFoodJourney s =
            Inr (showStage (nextStageIndex s)
                   (s\<lparr>expandedNodes := newSet (newSet ?core @ conn),
                      nodes := ns, randomCount := c, nodeGroup := ?g\<rparr>))"
      using conn Some pj res by (simp add: continueFoodJourney_def Let_def updatePositions_def)
    moreover have "map unplaced ns = map unplaced (nodes s)" using u by simp
    ultimately show ?thesis using conn g by blast
  qed
qed

subsection \<open>The stage search\<close>

lemma list_all_newSet: "list_all P (newSet vs) = (\<forall>v\<in>set vs. P v)"
  by (simp add: list_all_iff)

lemma stage1_in_later:
  "set stage1Core \<subseteq> set stage2Core" "set stage1Core \<subseteq> set stage3Core"
  "set stage1Core \<subseteq> set stage4Core" "set stage1Core \<subseteq> set stage5Core"
  "set stage1Core \<subseteq> set stage6Core"
  by (simp_all add: stage1Core_def stage2Core_def stage3Core_def stage4Core_def stage5Core_def
      stage6Core_def)

lemma length_stagesOf [simp]: "length (stagesOf s) = 7"
  by (simp add: stagesOf_def journeyStages_def Let_def)

lemma stagesOf_first [simp]: "fst (stagesOf s ! 0) = stage1Core"
  by (simp add: stagesOf_def journeyStages_def Let_def)

lemma stagesOf_first_positions [simp]: "snd (stagesOf s ! 0) \<noteq> None"
  by (simp add: stagesOf_def journeyStages_def Let_def)

lemma nextStageIndex_full:
  assumes full: "set (map node_id (nodes s)) \<subseteq> set (expandedNodes s)"
    and notfirst: "\<not> set stage1Core \<subseteq> set (expandedNodes s)"
  shows "nextStageIndex s = 0"
proof -
  have no: "\<not> set c \<subseteq> set (expandedNodes s)" if "set stage1Core \<subseteq> set c" for c
    using that notfirst by blast
  have "findStage (expandedNodes s) (stagesOf s) 0 = 6"
    using full notfirst no [OF stage1_in_later(1)] no [OF stage1_in_later(2)]
      no [OF stage1_in_later(3)] no [OF stage1_in_later(4)] no [OF stage1_in_later(5)]
    by (simp add: stagesOf_def journeyStages_def Let_def list_all_newSet subset_eq)
  then show ?thesis by (simp add: nextStageIndex_def Let_def)
qed


lemma showStage_elem:
  assumes "i < length (nodes s)" "length (nodeGroup s) = length (nodes s)"
  shows "nodeGroup (showStage k s) ! i =
           showExpanded (expandedNodes s) (nodeGroup s ! i) (nodes s ! i)"
  using assms by (simp add: showStage_def)

lemma showStage_fields [simp]:
  "expandedNodes (showStage k s) = expandedNodes s" "nodes (showStage k s) = nodes s"
  "links (showStage k s) = links s" "isJourneyExpanded (showStage k s) = isJourneyExpanded s"
  "currentlySelectedNodeData (showStage k s) = currentlySelectedNodeData s"
  "currentlySelectedNodeElement (showStage k s) = currentlySelectedNodeElement s"
  "detailsPanel (showStage k s) = detailsPanel s" "mindMapLinks (showStage k s) = mindMapLinks s"
  "exampleNodes (showStage k s) = exampleNodes s" "treeLinks (showStage k s) = treeLinks s"
  "linkElems (showStage k s) = linkElems s"
  by (simp_all add: showStage_def)

lemma showExpanded_fields [simp]:
  "el_hidden (showExpanded ex e n) = el_hidden e"
  "el_opacity (showExpanded ex e n) = (if node_id n \<in> set ex then 1 else 0)"
  "el_pointer (showExpanded ex e n) = (node_id n \<in> set ex)"
  "el_selected (showExpanded ex e n) = el_selected e"
  by (simp_all add: showExpanded_def)

text \<open>What one step of the journey does to each field of the state.\<close>

lemma continueFoodJourney_fields:
  assumes res: "list_all resolved (links s)" and len: "length (nodeGroup s) = length (nodes s)"
  obtains s' conn where
    "continueFoodJourney s = Inr s'"
    "findConnectedNodes (nodes s) (links s) (fst (stagesOf s ! nextStageIndex s)) = Inr conn"
    "expandedNodes s' = newSet (newSet (fst (stagesOf s ! nextStageIndex s)) @ conn)"
    "map unplaced (nodes s') = map unplaced (nodes s)"
    "length (nodeGroup s') = length (nodes s)"
    "\<And>i. i < length (nodes s) \<Longrightarrow>
        el_hidden (nodeGroup s' ! i) = el_hidden (nodeGroup s ! i) \<and>
        el_selected (nodeGroup s' ! i) = el_selected (nodeGroup s ! i) \<and>
        el_opacity (nodeGroup s' ! i) =
          (if node_id (nodes s ! i) \<in> set (expandedNodes s') then 1 else 0) \<and>
        el_pointer (nodeGroup s' ! i) = (node_id (nodes s ! i) \<in> set (expandedNodes s'))"
    "links s' = links s" "isJourneyExpanded s' = isJourneyExpanded s"
    "currentlySelectedNodeData s' = currentlySelectedNodeData s"
    "currentlySelectedNodeElement s' = currentlySelectedNodeElement s"
    "detailsPanel s' = detailsPanel s" "mindMapLinks s' = mindMapLinks s"
    "exampleNodes s' = exampleNodes s" "treeLinks s' = treeLinks s"
    "linkElems s' = linkElems s"
proof -
  from continueFoodJourney_result [OF res len] obtain conn ns c g where
    conn: "findConnectedNodes (nodes s) (links s) (fst (stagesOf s ! nextStageIndex s)) = Inr conn"
    and u: "map unplaced ns = map unplaced (nodes s)"
    and g: "map unmoved g = map unmoved (nodeGroup s)"
    and r: "continueFoodJourney s =
             Inr (showStage (nextStageIndex s)
                    (s\<lparr>expandedNodes := newSet (newSet (fst (stagesOf s ! nextStageIndex s)) @ conn),
                       nodes := ns, randomCount := c, nodeGroup := g\<rparr>))"
    by blast
  let ?E = "newSet (newSet (fst (stagesOf s ! nextStageIndex s)) @ conn)"
  let ?t = "s\<lparr>expandedNodes := ?E, nodes := ns, randomCount := c, nodeGroup := g\<rparr>"
  let ?s' = "showStage (nextStageIndex s) ?t"
  have lns: "length ns = length (nodes s)" using u by (rule unplaced_length)
  have lg: "length g = length (nodes s)"
    using g len by (auto dest: map_eq_imp_length_eq)
  have elems: "el_hidden (nodeGroup ?s' ! i) = el_hidden (nodeGroup s ! i) \<and>
        el_selected (nodeGroup ?s' ! i) = el_selected (nodeGroup s ! i) \<and>
        el_opacity (nodeGroup ?s' ! i) =
          (if node_id (nodes s ! i) \<in> set (expandedNodes ?s') then 1 else 0) \<and>
        el_pointer (nodeGroup ?s' ! i) = (node_id (nodes s ! i) \<in> set (expandedNodes ?s'))"
    if i: "i < length (nodes s)" for i
  proof -
    have e: "nodeGroup ?s' ! i = showExpanded ?E (g ! i) (ns ! i)"
      using i lns lg showStage_elem [of i ?t "nextStageIndex s"] by simp
    have ilg: "i < length (nodeGroup s)" using i len by simp
    have idn: "node_id (ns ! i) = node_id (nodes s ! i)"
      using unplaced_nth_id(1) [OF u i] .
    show ?thesis
      using e idn unmoved_nth(1) [OF g ilg] unmoved_nth(4) [OF g ilg] by simp
  qed
  have lg': "length (nodeGroup ?s') = length (nodes s)"
    using lns lg by (simp add: showStage_def)
  show ?thesis
    by (rule that [of ?s' conn]) (use r conn u elems lg' in \<open>simp_all\<close>)
qed

lemma rendered_iff: "rendered e \<longleftrightarrow> \<not> el_hidden e \<and> el_opacity e = 1 \<and> el_pointer e"
  by (simp add: rendered_def shownOpacity_def shownPointer_def)

lemma wellFormed_data: "wellFormed s \<Longrightarrow> currentlySelectedNodeData s = currentlySelectedNodeElement s"
  by (simp add: wellFormed_def)

lemma toggleCategoryVisibility_fields [simp]:
  "nodes (toggleCategoryVisibility c b s) = nodes s"
  "links (toggleCategoryVisibility c b s) = links s"
  "linkElems (toggleCategoryVisibility c b s) = linkElems s"
  "expandedNodes (toggleCategoryVisibility c b s) = expandedNodes s"
  "currentlySelectedNodeData (toggleCategoryVisibility c b s) = currentlySelectedNodeData s"
  "currentlySelectedNodeElement (toggleCategoryVisibility c b s) = currentlySelectedNodeElement s"
  by (simp_all add: toggleCategoryVisibility_def)

lemma toggleCategoryVisibility_length:
  "length (nodeGroup s) = length (nodes s) \<Longrightarrow>
   length (nodeGroup (toggleCategoryVisibility c b s)) = length (nodes s)"
  by (simp add: toggleCategoryVisibility_def)

lemma toggleCategoryVisibility_elem:
  assumes "i < length (nodes s)" "length (nodeGroup s) = length (nodes s)"
    "node_group (nodes s ! i) = c"
  shows "nodeGroup (toggleCategoryVisibility c b s) ! i =
           (nodeGroup s ! i)\<lparr>el_hidden := \<not> b, el_opacity := (if b then 1 else 0), el_pointer := b\<rparr>"
proof -
  have "list_ex (\<lambda>n. node_group n = c) (nodes s)"
    using assms(1,3) by (auto simp: list_ex_iff)
  then show ?thesis
    using assms by (simp add: toggleCategoryVisibility_def toggleElem_def)
qed

lemma categoryChanged_wellFormed:
  assumes "wellFormed s"
  shows "wellFormed (categoryChanged c b s)"
  using assms toggleCategoryVisibility_length [of "s\<lparr>categoryCheckboxes := x\<rparr>" c b for x]
  by (simp add: wellFormed_def categoryChanged_def)

lemma categoryChanged_hidden:
  assumes "wellFormed s" "i < length (nodes s)" "node_group (nodes s ! i) = c"
  shows "el_hidden (nodeGroup (categoryChanged c False s) ! i)"
  using assms
    toggleCategoryVisibility_elem [of i "s\<lparr>categoryCheckboxes := x\<rparr>" c False for x]
  by (simp add: categoryChanged_def wellFormed_def)

lemma categoryChanged_nodes [simp]: "nodes (categoryChanged c b s) = nodes s"
  by (simp add: categoryChanged_def)

lemma updateAnimationState_fields [simp]:
  "nodes (updateAnimationState b s) = nodes s"
  "nodeGroup (updateAnimationState b s) = nodeGroup s"
  "currentlySelectedNodeData (updateAnimationState b s) = currentlySelectedNodeData s"
  "currentlySelectedNodeElement (updateAnimationState b s) = currentlySelectedNodeElement s"
  "detailsPanel (updateAnimationState b s) = detailsPanel s"
  "mindMapLinks (updateAnimationState b s) = mindMapLinks s"
  "exampleNodes (updateAnimationState b s) = exampleNodes s"
  "treeLinks (updateAnimationState b s) = treeLinks s"
  "links (updateAnimationState b s) = links s"
  by (simp_all add: updateAnimationState_def)

lemma updateAnimationState_elem:
  assumes "i < length (links s)" "length (linkElems s) = length (links s)"
  shows "le_animated (linkElems (updateAnimationState b s) ! i) = (\<not> b)"
    "le_animation (linkElems (updateAnimationState b s) ! i) =
       (if b then ''none'' else animationOf (links s ! i))"
  using assms by (simp_all add: updateAnimationState_def animate_def)

lemma clearSelection_fields [simp]:
  "nodes (clearSelection s) = nodes s" "links (clearSelection s) = links s"
  "linkElems (clearSelection s) = linkElems s"
  "length (nodeGroup (clearSelection s)) = length (nodeGroup s)"
  "randoms (clearSelection s) = randoms s" "randomCount (clearSelection s) = randomCount s"
  "width (clearSelection s) = width s" "height (clearSelection s) = height s"
  "currentlySelectedNodeElement (clearSelection s) = None"
  by (simp_all add: clearSelection_def split: option.splits)

lemma clearSelection_data:
  "currentlySelectedNodeData s = currentlySelectedNodeElement s \<Longrightarrow>
   currentlySelectedNodeData (clearSelection s) = None"
  by (simp add: clearSelection_def split: option.splits)

lemma clearSelection_hidden:
  "el_hidden (nodeGroup (clearSelection s) ! i) = el_hidden (nodeGroup s ! i)"
proof (cases "currentlySelectedNodeElement s")
  case None
  then show ?thesis by (simp add: clearSelection_def)
next
  case (Some p)
  show ?thesis
  proof (cases "p < length (nodeGroup s)")
    case True
    with Some show ?thesis by (simp add: clearSelection_def nth_list_update)
  next
    case False
    with Some show ?thesis by (simp add: clearSelection_def not_less list_update_beyond)
  qed
qed

lemma clearSelection_selected:
  "currentlySelectedNodeElement s = Some p \<Longrightarrow> p < length (nodeGroup s) \<Longrightarrow>
   \<not> el_selected (nodeGroup (clearSelection s) ! p)"
  by (simp add: clearSelection_def)

lemma svgClick_base:
  assumes res: "list_all resolved (links s)"
    and base: "\<not> (isJourneyExpanded s \<and> length (expandedNodes s) < length (nodes s))"
  shows "svgClick False s =
           Inr (updateAnimationState False
                  ((clearSelection s)\<lparr>detailsPanel := PanelDefault,
                      nodes := fst (initialLayout (randoms s) (randomCount s) (width s) (height s)
                                      (map unpin (nodes s))),
                      randomCount := snd (initialLayout (randoms s) (randomCount s) (width s)
                                      (height s)
                                      (map unpin (nodes s))),
                      nodeGroup := map resetElem
                        (map2 moveTo (nodeGroup (clearSelection s))
                           (fst (initialLayout (randoms s) (randomCount s) (width s) (height s)
                                      (map unpin (nodes s))))),
                      mindMapLinks := [], treeLinks := [], exampleNodes := []\<rparr>))"
  unfolding svgClick_def if_False if_not_P [OF base]
  using res by (simp add: Let_def setInitialPositions_def updatePositions_def)

lemma unplaced_unpin_fx [simp]: "node_fx (unpin n) = None" "node_fy (unpin n) = None"
  by (simp_all add: unpin_def)

lemma nodeMap_snoc: "nodeMap (ns @ [n]) = (nodeMap ns)(node_id n \<mapsto> length ns)"
  by (simp add: nodeMap_def enumerate_append_eq)

lemma nodeMap_Some_iff:
  "nodeMap ns k = Some i \<longleftrightarrow>
     i < length ns \<and> node_id (ns ! i) = k \<and> (\<forall>j. i < j \<and> j < length ns \<longrightarrow> node_id (ns ! j) \<noteq> k)"
proof (induction ns arbitrary: i rule: rev_induct)
  case Nil
  then show ?case by (simp add: nodeMap_def)
next
  case (snoc n ns)
  show ?case
  proof (cases "node_id n = k")
    case True
    have "i < length (ns @ [n]) \<and> node_id ((ns @ [n]) ! i) = k \<and>
          (\<forall>j. i < j \<and> j < length (ns @ [n]) \<longrightarrow> node_id ((ns @ [n]) ! j) \<noteq> k) \<longleftrightarrow> i = length ns"
    proof
      assume a: "i < length (ns @ [n]) \<and> node_id ((ns @ [n]) ! i) = k \<and>
          (\<forall>j. i < j \<and> j < length (ns @ [n]) \<longrightarrow> node_id ((ns @ [n]) ! j) \<noteq> k)"
      show "i = length ns"
      proof (rule ccontr)
        assume "i \<noteq> length ns"
        with a have il: "i < length ns" by simp
        from a have "\<forall>j. i < j \<and> j < length (ns @ [n]) \<longrightarrow> node_id ((ns @ [n]) ! j) \<noteq> k"
          by blast
        then have "i < length ns \<and> length ns < length (ns @ [n]) \<longrightarrow>
                   node_id ((ns @ [n]) ! length ns) \<noteq> k"
          by (rule spec)
        with il have "node_id ((ns @ [n]) ! length ns) \<noteq> k" by simp
        with True show False by simp
      qed
    next
      assume "i = length ns"
      with True show "i < length (ns @ [n]) \<and> node_id ((ns @ [n]) ! i) = k \<and>
          (\<forall>j. i < j \<and> j < length (ns @ [n]) \<longrightarrow> node_id ((ns @ [n]) ! j) \<noteq> k)"
        by auto
    qed
    with True show ?thesis by (auto simp: nodeMap_snoc)
  next
    case False
    have "(i < length (ns @ [n]) \<and> node_id ((ns @ [n]) ! i) = k \<and>
          (\<forall>j. i < j \<and> j < length (ns @ [n]) \<longrightarrow> node_id ((ns @ [n]) ! j) \<noteq> k)) \<longleftrightarrow>
          (i < length ns \<and> node_id (ns ! i) = k \<and>
          (\<forall>j. i < j \<and> j < length ns \<longrightarrow> node_id (ns ! j) \<noteq> k))"
      using False by (auto simp: nth_append less_Suc_eq)
    with False snoc.IH [of i] show ?thesis by (simp add: nodeMap_snoc)
  qed
qed

lemma findFrom_Some_iff:
  "findFrom k p ns = Some i \<longleftrightarrow>
     (\<exists>j. i = k + j \<and> j < length ns \<and> p (ns ! j) \<and> (\<forall>j'<j. \<not> p (ns ! j')))"
proof (induction ns arbitrary: k)
  case Nil
  then show ?case by simp
next
  case (Cons n ns)
  show ?case
  proof (cases "p n")
    case True
    have "(\<exists>j. i = k + j \<and> j < length (n # ns) \<and> p ((n # ns) ! j) \<and>
             (\<forall>j'<j. \<not> p ((n # ns) ! j'))) \<longleftrightarrow> i = k"
    proof
      assume "\<exists>j. i = k + j \<and> j < length (n # ns) \<and> p ((n # ns) ! j) \<and>
             (\<forall>j'<j. \<not> p ((n # ns) ! j'))"
      then obtain j where j: "i = k + j" "\<forall>j'<j. \<not> p ((n # ns) ! j')" by blast
      have "j = 0"
      proof (rule ccontr)
        assume "j \<noteq> 0"
        then have "0 < j" by simp
        with j(2) have "\<not> p ((n # ns) ! 0)" by blast
        with True show False by simp
      qed
      with j show "i = k" by simp
    next
      assume "i = k"
      with True show "\<exists>j. i = k + j \<and> j < length (n # ns) \<and> p ((n # ns) ! j) \<and>
             (\<forall>j'<j. \<not> p ((n # ns) ! j'))"
        by (intro exI [of _ 0]) simp
    qed
    with True show ?thesis by auto
  next
    case False
    have "(\<exists>j. i = k + j \<and> j < length (n # ns) \<and> p ((n # ns) ! j) \<and>
             (\<forall>j'<j. \<not> p ((n # ns) ! j'))) \<longleftrightarrow>
          (\<exists>j. i = Suc k + j \<and> j < length ns \<and> p (ns ! j) \<and> (\<forall>j'<j. \<not> p (ns ! j')))"
    proof
      assume "\<exists>j. i = k + j \<and> j < length (n # ns) \<and> p ((n # ns) ! j) \<and>
             (\<forall>j'<j. \<not> p ((n # ns) ! j'))"
      then obtain j where j: "i = k + j" "j < length (n # ns)" "p ((n # ns) ! j)"
        "\<forall>j'<j. \<not> p ((n # ns) ! j')" by blast
      from j(3) False obtain m where m: "j = Suc m" by (cases j) auto
      have "\<forall>j'<m. \<not> p (ns ! j')"
      proof (intro allI impI)
        fix j' assume "j' < m"
        then have "Suc j' < j" using m by simp
        with j(4) have "\<not> p ((n # ns) ! Suc j')" by blast
        then show "\<not> p (ns ! j')" by simp
      qed
      with j m show "\<exists>j. i = Suc k + j \<and> j < length ns \<and> p (ns ! j) \<and> (\<forall>j'<j. \<not> p (ns ! j'))"
        by (intro exI [of _ m]) simp
    next
      assume "\<exists>j. i = Suc k + j \<and> j < length ns \<and> p (ns ! j) \<and> (\<forall>j'<j. \<not> p (ns ! j'))"
      then obtain m where m: "i = Suc k + m" "m < length ns" "p (ns ! m)"
        "\<forall>j'<m. \<not> p (ns ! j')" by blast
      have "\<forall>j'<Suc m. \<not> p ((n # ns) ! j')"
      proof (intro allI impI)
        fix j' assume "j' < Suc m"
        then show "\<not> p ((n # ns) ! j')" using False m(4) by (cases j') auto
      qed
      with m show "\<exists>j. i = k + j \<and> j < length (n # ns) \<and> p ((n # ns) ! j) \<and>
             (\<forall>j'<j. \<not> p ((n # ns) ! j'))"
        by (intro exI [of _ "Suc m"]) simp
    qed
    with False Cons.IH [of "Suc k"] show ?thesis by simp
  qed
qed

lemma findNode_Some_iff:
  "findNode (hasId k) ns = Some i \<longleftrightarrow>
     i < length ns \<and> node_id (ns ! i) = k \<and> (\<forall>j<i. node_id (ns ! j) \<noteq> k)"
  by (simp add: findNode_def findFrom_Some_iff hasId_def)

lemma nodeMap_ids:
  assumes "map node_id ns = map node_id ms"
  shows "nodeMap ns = nodeMap ms"
proof (rule ext)
  fix k
  have len: "length ns = length ms" using assms by (rule map_eq_imp_length_eq)
  have nth: "node_id (ns ! i) = node_id (ms ! i)" if "i < length ms" for i
  proof -
    have "map node_id ns ! i = map node_id ms ! i" using assms by simp
    with that len show ?thesis by simp
  qed
  have eq: "nodeMap ns k = Some i \<longleftrightarrow> nodeMap ms k = Some i" for i
  proof -
    have "(i < length ms \<and> node_id (ns ! i) = k \<and>
           (\<forall>j. i < j \<and> j < length ms \<longrightarrow> node_id (ns ! j) \<noteq> k)) \<longleftrightarrow>
          (i < length ms \<and> node_id (ms ! i) = k \<and>
           (\<forall>j. i < j \<and> j < length ms \<longrightarrow> node_id (ms ! j) \<noteq> k))"
      by (metis nth)
    then show ?thesis unfolding nodeMap_Some_iff len .
  qed
  show "nodeMap ns k = nodeMap ms k"
  proof (cases "nodeMap ms k")
    case None
    show ?thesis
    proof (cases "nodeMap ns k")
      case (Some i)
      with eq [of i] None show ?thesis by simp
    qed (simp add: None)
  next
    case (Some i)
    with eq [of i] show ?thesis by simp
  qed
qed

subsection \<open>Initialization\<close>

lemma linkOpacity_resolved:
  assumes "resolved l"
  shows "\<exists>v. linkOpacity doc ns l = Inr v"
proof -
  from assms obtain i j where "link_source l = Some i" "link_target l = Some j"
    by (rule resolvedE)
  then show ?thesis by (simp add: linkOpacity_def split: option.splits)
qed

lemma mapE_total:
  assumes "\<And>a. a \<in> set as \<Longrightarrow> \<exists>b. f a = Inr b"
  shows "\<exists>bs. mapE f as = Inr bs"
  using assms
proof (induction as)
  case Nil
  then show ?case by simp
next
  case (Cons a as)
  from Cons.prems [of a] obtain b where b: "f a = Inr b" by auto
  from Cons.IH Cons.prems obtain bs where "mapE f as = Inr bs" by auto
  with b show ?case by simp
qed

lemma drawLinks_resolved:
  assumes "list_all resolved ls"
  shows "\<exists>ops. drawLinks ns ls = Inr ops"
  unfolding drawLinks_def
  by (rule mapE_total) (use assms in \<open>auto simp: list_all_iff intro: linkOpacity_resolved\<close>)

lemma initializeJourney_fields [simp]:
  "nodes (initializeJourney s) = nodes s" "links (initializeJourney s) = links s"
  "linkElems (initializeJourney s) = linkElems s"
  "currentlySelectedNodeData (initializeJourney s) = currentlySelectedNodeData s"
  "currentlySelectedNodeElement (initializeJourney s) = currentlySelectedNodeElement s"
  "length (nodeGroup s) = length (nodes s) \<Longrightarrow>
     length (nodeGroup (initializeJourney s)) = length (nodes s)"
  by (simp_all add: initializeJourney_def)

lemma setOpacity_fields [simp]:
  "nodes (setOpacity f s) = nodes s" "links (setOpacity f s) = links s"
  "linkElems (setOpacity f s) = linkElems s"
  "currentlySelectedNodeData (setOpacity f s) = currentlySelectedNodeData s"
  "currentlySelectedNodeElement (setOpacity f s) = currentlySelectedNodeElement s"
  "length (nodeGroup s) = length (nodes s) \<Longrightarrow>
     length (nodeGroup (setOpacity f s)) = length (nodes s)"
  by (simp_all add: setOpacity_def)

lemma toggleNonCoreNodes_fields [simp]:
  "nodes (toggleNonCoreNodes b s) = nodes s" "links (toggleNonCoreNodes b s) = links s"
  "linkElems (toggleNonCoreNodes b s) = linkElems s"
  "currentlySelectedNodeData (toggleNonCoreNodes b s) = currentlySelectedNodeData s"
  "currentlySelectedNodeElement (toggleNonCoreNodes b s) = currentlySelectedNodeElement s"
  "length (nodeGroup s) = length (nodes s) \<Longrightarrow>
     length (nodeGroup (toggleNonCoreNodes b s)) = length (nodes s)"
  by (simp_all add: toggleNonCoreNodes_def)

lemma framed_refl: "framed s s"
  by (simp add: framed_def)

lemma framed_trans: "framed s t \<Longrightarrow> framed t u \<Longrightarrow> framed s u"
  by (auto simp: framed_def)

lemma framed_toggleCategoryVisibility: "framed s (toggleCategoryVisibility c b s)"
  by (simp add: framed_def toggleCategoryVisibility_length)

lemma framed_foldl:
  assumes "\<And>t a. framed t (f t a)"
  shows "framed s (foldl f s as)"
proof (induction as arbitrary: s)
  case Nil
  show ?case by (simp add: framed_refl)
next
  case (Cons a as)
  have "framed s (f s a)" by (rule assms)
  moreover have "framed (f s a) (foldl f (f s a) as)" by (rule Cons.IH)
  ultimately show ?case by (auto intro: framed_trans)
qed

lemma framed_setupCategoryToggles: "framed s (setupCategoryToggles s)"
proof -
  have step: "framed t (if fst cb \<in> set G then toggleCategoryVisibility (fst cb) (snd cb) t else t)"
    for t cb G
    by (simp add: framed_refl framed_toggleCategoryVisibility)
  have "framed (s\<lparr>categoryCheckboxes := cbs\<rparr>)
          (foldl (\<lambda>s' cb. if fst cb \<in> set G
                           then toggleCategoryVisibility (fst cb) (snd cb) s' else s')
             (s\<lparr>categoryCheckboxes := cbs\<rparr>) cbs')" for cbs cbs' G
    by (rule framed_foldl) (rule step)
  moreover have "framed s (s\<lparr>categoryCheckboxes := cbs\<rparr>)" for cbs
    by (simp add: framed_def)
  ultimately show ?thesis
    unfolding setupCategoryToggles_def Let_def by (blast intro: framed_trans)
qed

lemma processLinks_inRange:
  "list_all resolved (processLinks ns ls) \<Longrightarrow>
   list_all (\<lambda>l. inRange (length ns) (link_source l) \<and> inRange (length ns) (link_target l))
     (processLinks ns ls)"
  by (auto simp: list_all_iff processLinks_def resolveLink_def resolved_def inRange_def
      nodeMap_Some_iff split: option.splits)

lemma processLinks_positioned:
  "processLinks (positionNodes ns w h) ls = processLinks ns ls"
proof -
  have "map node_id (positionNodes ns w h) = map node_id ns"
    by (rule unplaced_map_id) (rule unplaced_positionNodes)
  then have "nodeMap (positionNodes ns w h) = nodeMap ns" by (rule nodeMap_ids)
  then show ?thesis by (simp add: processLinks_def)
qed

lemma initPage_result:
  assumes res: "list_all resolved (processLinks ns ls)"
  shows "\<exists>s. initPage rnd w h ns ls = Inr s \<and> wellFormed s \<and>
           map node_id (nodes s) = map node_id ns \<and> links s = processLinks ns ls"
proof -
  let ?ns = "positionNodes ns w h"
  let ?ls = "processLinks ns ls"
  let ?ns1 = "map (\<lambda>n. if node_group n = [] then n\<lparr>node_group := ''uncategorized''\<rparr> else n) ?ns"
  let ?s0 = "\<lparr> nodes = ?ns1, links = ?ls, width = w, height = h,
                    isJourneyExpanded = False, expandedNodes = newSet [''environment''],
                    currentView = ''default'', regenChecked = False,
                    categoryCheckboxes = htmlCheckboxes,
                    currentlySelectedNodeData = None, currentlySelectedNodeElement = None,
                    detailsPanel = PanelDefault,
                    nodeGroup = map (\<lambda>n. \<lparr> el_hidden = False, el_opacity = 1, el_pointer = True,
                                            el_selected = False, el_transform = (None, None) \<rparr>) ?ns1,
                    linkElems = map (\<lambda>l. \<lparr> le_animated = False, le_animation = [] \<rparr>) ?ls,
                    mindMapLinks = [], exampleNodes = [], treeLinks = [],
                    continueButton = None, randoms = rnd, randomCount = 0 \<rparr>"
  let ?s1 = "setOpacity (\<lambda>n. 1) ((initializeJourney ?s0)\<lparr>currentView := ''default''\<rparr>)"
  from drawLinks_resolved [OF res] obtain ops where ops: "drawLinks ?ns ?ls = Inr ops" by blast
  have avm: "applyViewMode ''default'' (initializeJourney ?s0) = Inr ?s1"
    by (simp add: applyViewMode_def Let_def applyRegenStyles_def)
  have ids1: "map node_id ?ns1 = map node_id ns"
  proof -
    have "map node_id ?ns1 = map node_id ?ns" by (simp add: o_def if_distrib cong: if_cong)
    also have "\<dots> = map node_id ns" by (rule unplaced_map_id) (rule unplaced_positionNodes)
    finally show ?thesis .
  qed
  have len1: "length ?ns1 = length ns" using ids1 by (rule map_eq_imp_length_eq)
  have f1: "nodes ?s1 = ?ns1" "links ?s1 = ?ls" "length (nodeGroup ?s1) = length ?ns1"
    "length (linkElems ?s1) = length ?ls"
    "currentlySelectedNodeData ?s1 = None" "currentlySelectedNodeElement ?s1 = None"
    by (simp_all add: initializeJourney_def setOpacity_def)
  have res1: "list_all resolved (links ?s1)" using res f1(2) by simp
  from setInitialPositions_result [OF res1] obtain ms c where
    sip: "setInitialPositions ?s1 =
            Inr (?s1\<lparr>nodes := ms, randomCount := c, nodeGroup := map2 moveTo (nodeGroup ?s1) ms\<rparr>)"
    and u: "map unplaced ms = map unplaced (nodes ?s1)" by blast
  let ?s2 = "?s1\<lparr>nodes := ms, randomCount := c, nodeGroup := map2 moveTo (nodeGroup ?s1) ms\<rparr>"
  let ?s3 = "initializeJourney ?s2"
  let ?s4 = "setupCategoryToggles (toggleNonCoreNodes True ?s3)"
  have lms: "length ms = length ns" using unplaced_length [OF u] f1(1) len1 by simp
  have idms: "map node_id ms = map node_id ns"
    using unplaced_map_id [OF u] f1(1) ids1 by simp
  have f3: "nodes ?s3 = ms" "links ?s3 = ?ls" "length (nodeGroup ?s3) = length (nodes ?s3)"
    "length (linkElems ?s3) = length ?ls"
    "currentlySelectedNodeData ?s3 = None" "currentlySelectedNodeElement ?s3 = None"
    using lms len1 f1 by (simp_all add: initializeJourney_def setOpacity_def)
  have fr: "framed ?s3 ?s4"
    by (rule framed_trans [OF _ framed_setupCategoryToggles]) (simp add: framed_def)
  have f4: "nodes ?s4 = ms" "links ?s4 = ?ls" "length (nodeGroup ?s4) = length ms"
    "length (linkElems ?s4) = length ?ls"
    "currentlySelectedNodeData ?s4 = None" "currentlySelectedNodeElement ?s4 = None"
    using fr f3 unfolding framed_def by simp_all
  have r: "initPage rnd w h ns ls = Inr ?s4"
    using ops avm sip
    by (simp add: initPage_def initializeVisualization_def Let_def processLinks_positioned)
  have wf: "wellFormed ?s4"
    using lms f4 processLinks_inRange [OF res]
    by (simp add: wellFormed_def selectionOk_def)
  from r wf idms f4(1,2) show ?thesis by simp
qed

subsection \<open>Clicks do not throw\<close>

lemma expandFoodJourney_total:
  assumes "list_all resolved (links s)"
  shows "\<exists>s'. expandFoodJourney s = Inr s'"
proof -
  from findConnectedNodes_total [OF assms] obtain conn
    where "findConnectedNodes (nodes s) (links s) [''environment''] = Inr conn" by blast
  then show ?thesis
    using assms by (simp add: expandFoodJourney_def Let_def updatePositions_def)
qed

lemma focusStep_total:
  assumes "resolved l"
  shows "\<exists>acc'. focusStep ns d neg acc l = Inr acc'"
proof -
  from assms obtain i j where "link_source l = Some i" "link_target l = Some j"
    by (rule resolvedE)
  then show ?thesis by (simp add: focusStep_def Let_def)
qed

lemma focusStep_kept:
  assumes "focusStep ns d neg acc l = Inr acc'"
  shows "snd ` set (snd acc') \<subseteq> insert l (snd ` set (snd acc))"
proof (cases "(link_source l = Some d \<or> link_target l = Some d) \<and>
              link_type l \<in> set (allowedTypes neg)")
  case False
  with assms have "acc' = acc" by (auto simp: focusStep_def)
  then show ?thesis by blast
next
  case True
  show ?thesis
  proof (cases "link_source l")
    case None
    with True assms show ?thesis by (simp add: focusStep_def Let_def)
  next
    case (Some i)
    note src = Some
    show ?thesis
    proof (cases "link_target l")
      case None
      with True src assms show ?thesis by (simp add: focusStep_def Let_def)
    next
      case (Some j)
      with True src assms show ?thesis
        by (auto simp: focusStep_def Let_def split: if_splits)
    qed
  qed
qed



lemma groupStep_total:
  assumes "resolved l"
  shows "\<exists>g. groupStep ns d acc l = Inr g"
proof -
  from assms obtain i j where "link_source l = Some i" "link_target l = Some j"
    by (rule resolvedE)
  then show ?thesis by (simp add: groupStep_def)
qed

lemma renderStep_total:
  assumes "resolved l"
  shows "\<exists>r. renderStep ns d acc l = Inr r"
proof -
  from assms obtain i j where "link_source l = Some i" "link_target l = Some j"
    by (rule resolvedE)
  then show ?thesis by (simp add: renderStep_def Let_def)
qed

lemma bindE_weak_cong: "m = m' \<Longrightarrow> bindE m f = bindE m' f"
  by simp

lemma bindE_totalI:
  assumes "\<exists>v. m = Inr v" "\<And>v. \<exists>r. f v = Inr r"
  shows "\<exists>r. bindE m f = Inr r"
  using assms by (auto simp: bindE_def)

lemma updateAnimationState_frame [simp]:
  "links (updateAnimationState b s) = links s" "nodes (updateAnimationState b s) = nodes s"
  "width (updateAnimationState b s) = width s" "height (updateAnimationState b s) = height s"
  by (simp_all add: updateAnimationState_def)

lemma nodeClicked_total:
  assumes res: "list_all resolved (links s)"
  shows "\<exists>s'. nodeClicked le d s = Inr s'"
proof (cases "node_id (nodes s ! d) = ''environment'' \<and> \<not> isJourneyExpanded s")
  case True
  then show ?thesis using expandFoodJourney_total [OF res] by (simp add: nodeClicked_def)
next
  case False
  let ?neg = "currentView s = ''negative''"
  have allres: "\<And>l. l \<in> set (links s) \<Longrightarrow> resolved l"
    using res by (simp add: list_all_iff)
  have "\<exists>found. foldE (focusStep (nodes s) d ?neg) ([Some d], []) (links s) = Inr found"
    by (rule foldE_total) (rule focusStep_total, rule allres)
  then obtain found where
    found: "foldE (focusStep (nodes s) d ?neg) ([Some d], []) (links s) = Inr found" by blast
  have kept: "snd ` set (snd found) \<subseteq> set (links s)"
  proof (rule foldE_invariant [OF found, where P = "\<lambda>acc. snd ` set (snd acc) \<subseteq> set (links s)"])
    show "snd ` set (snd ([Some d], [])) \<subseteq> set (links s)" by simp
  next
    fix t a t'
    assume "a \<in> set (links s)" "snd ` set (snd t) \<subseteq> set (links s)"
      "focusStep (nodes s) d ?neg t a = Inr t'"
    then show "snd ` set (snd t') \<subseteq> set (links s)"
      using focusStep_kept [of "nodes s" d ?neg t a t'] by blast
  qed
  have cres: "\<And>l. l \<in> set (map snd (snd found)) \<Longrightarrow> resolved l"
    using kept allres by auto
  let ?ns1 = "pinAt d (width s / 2) (height s / 2) (nodes s)"
  have "\<exists>g. foldE (groupStep ?ns1 d) [] (map snd (snd found)) = Inr g"
    by (rule foldE_total) (rule groupStep_total, rule cres)
  then obtain g where g: "foldE (groupStep ?ns1 d) [] (map snd (snd found)) = Inr g" by blast
  have rend: "\<exists>r. foldE (renderStep ns d) ([], []) (map snd (snd found)) = Inr r" for ns
    by (rule foldE_total) (rule renderStep_total, rule cres)
  show ?thesis
    unfolding nodeClicked_def Let_def
    apply (simp only: False if_False)
    apply (simp add: found g cong: bindE_weak_cong)
    apply (intro conjI impI)
     apply (rule bindE_totalI [OF rend], simp add: res)+
    done
qed

lemma length_selectElement [simp]: "length (selectElement p d els) = length els"
  by (simp add: selectElement_def Let_def split: option.splits)

lemma length_pinAt [simp]: "length (pinAt i px py ns) = length ns"
  by (simp add: pinAt_def)


subsection \<open>Links that do not resolve\<close>













subsection \<open>Evaluation\<close>

lemmas model_defs = initPage_def positionNodes_def positionCategory_def pushTo_def setXY_def
  categoryPositions_def processLinks_def resolveLink_def nodeMap_def initializeVisualization_def
  drawLinks_def linkOpacity_def newSet_def setAdd_def
  initializeJourney_def applyViewMode_def applyRegenStyles_def setOpacity_def
  toggleNonCoreNodes_def toggleNonCoreElem_def setupCategoryToggles_def toggleCategoryVisibility_def
  toggleElem_def htmlCheckboxes_def setInitialPositions_def initialLayout_def placeStage_def
  primaryFlowStages_def placeFirst_def findNode_def hasId_def placeFactor_def factorXPositions_def
  placeWaste_def placeRemaining_def falsyNum_def updatePositions_def resolved_def moveTo_def
  mkNode_def mkLink_def enumerate_eq_zip loaded_def click_def check_def categoryChanged_def
  nodeClicked_def expandFoodJourney_def findConnectedNodes_def connectedStep_def placeIfExpanded_def
  showExpanded_def continueFoodJourney_def stagesOf_def nextStageIndex_def journeyStages_def
  placeJourneyNodes_def placeJourneyNode_def showStage_def findNodeConnections_def connectionsStep_def
  stage1Core_def stage2Core_def stage3Core_def stage4Core_def stage5Core_def stage6Core_def
  stage1Positions_def stage2Positions_def stage3Positions_def stage4Positions_def stage5Positions_def
  stage6Positions_def visibleIds_def observe_def rendered_def shownOpacity_def shownPointer_def
  getIconClass_def updateAnimationState_def animate_def animationOf_def linkKey_def allowedTypes_def
  focusStep_def groupStep_def sortById_def pinAt_def pinColumn_def showConnected_def renderStep_def
  numOf_def exampleStep_def selectElement_def resize_def resetElem_def clearSelection_def svgClick_def
  unpin_def anyOrder_def stateOf_def placeOf_def pinOf_def halfRandom_def
  wellFormed_def inRange_def selectionOk_def
  twoNodes_def twoLinks_def threeNodes_def threeLinks_def ghostNodes_def ghostLinks_def
  chainNodes_def chainLinks_def pairNodes_def pairLinks_def dupNodes_def dupLinks_def
  twoExpanded_def twoFocused_def threeFocused_def
  lonelyNodes_def lonelyLinks_def lonelyExpanded_def
  patchyNodes_def patchyLinks_def dataJson_def nodeJson_def linkJson_def property_def
  loadPage_def loadFoodSystemData_def validateDataStructure_def payload_def missingAny_def
  falsyProp_def

section \<open>Properties of the specification\<close>









text \<open>
  C4 (the code departs from it). \<^verbatim>\<open>irrigation\<close> is two hops from \<^verbatim>\<open>environment\<close>, the
  only core node of the dataset. With the links in dataset order the stage transition
  shows it; with the same links in reverse order it does not.
\<close>

theorem stage_transition_after_reordering_links:
  "observe visibleIds (run [click 0, continueFoodJourney] (loaded chainNodes chainLinks)) =
     Inr [''environment'', ''water'', ''irrigation''] \<and>
   observe visibleIds (run [click 0, continueFoodJourney] (loaded chainNodes (rev chainLinks))) =
     Inr [''environment'', ''water'']"
  by (simp add: model_defs Let_def cong: let_weak_cong bindE_weak_cong)

text \<open>
  C5 (as stated, refuted). Before the journey has begun, un-checking and re-checking the
  \<^verbatim>\<open>core_flow\<close> checkbox draws \<^verbatim>\<open>production\<close>, which is not in the visible set of the
  disclosure state; every checkbox is checked again.
\<close>

theorem category_recheck_counterexample:
  "observe visibleIds
     (run [check ''core_flow'' False, check ''core_flow'' True] (loaded twoNodes twoLinks)) =
     Inr [''environment'', ''production''] \<and>
   observe expandedNodes
     (run [check ''core_flow'' False, check ''core_flow'' True] (loaded twoNodes twoLinks)) =
     Inr [''environment''] \<and>
   observe categoryCheckboxes
     (run [check ''core_flow'' False, check ''core_flow'' True] (loaded twoNodes twoLinks)) =
     Inr htmlCheckboxes"
  by (simp add: model_defs Let_def cong: let_weak_cong bindE_weak_cong)

text \<open>
  C5 (amended). Right after a journey-stage transition a node is drawn exactly when its
  id is in the visible set of the new stage and its element does not carry the class
  \<^verbatim>\<open>hidden\<close>; un-checking a category puts that class on the nodes of the category, so
  the transition that follows does not draw them.
\<close>

theorem stage_transition_keeps_hidden_nodes_hidden:
  assumes wf: "wellFormed s"
  shows "(\<exists>s'. continueFoodJourney s = Inr s' \<and>
            (\<forall>i<length (nodes s).
               rendered (nodeGroup s' ! i) \<longleftrightarrow>
                 node_id (nodes s' ! i) \<in> set (expandedNodes s') \<and>
                 \<not> el_hidden (nodeGroup s ! i))) \<and>
         (\<exists>s'. continueFoodJourney (categoryChanged c False s) = Inr s' \<and>
            (\<forall>i<length (nodes s).
               node_group (nodes s ! i) = c \<longrightarrow> \<not> rendered (nodeGroup s' ! i)))"
proof -
  have step: "\<exists>s'. continueFoodJourney t = Inr s' \<and>
            (\<forall>i<length (nodes t).
               rendered (nodeGroup s' ! i) \<longleftrightarrow>
                 node_id (nodes s' ! i) \<in> set (expandedNodes s') \<and>
                 \<not> el_hidden (nodeGroup t ! i))" if wt: "wellFormed t" for t
  proof -
    from continueFoodJourney_fields [OF wellFormed_resolved [OF wt] wellFormed_length [OF wt]]
    obtain s' where
      r: "continueFoodJourney t = Inr s'"
      and u: "map unplaced (nodes s') = map unplaced (nodes t)"
      and el: "\<And>i. i < length (nodes t) \<Longrightarrow>
        el_hidden (nodeGroup s' ! i) = el_hidden (nodeGroup t ! i) \<and>
        el_selected (nodeGroup s' ! i) = el_selected (nodeGroup t ! i) \<and>
        el_opacity (nodeGroup s' ! i) =
          (if node_id (nodes t ! i) \<in> set (expandedNodes s') then 1 else 0) \<and>
        el_pointer (nodeGroup s' ! i) = (node_id (nodes t ! i) \<in> set (expandedNodes s'))"
      by blast
    have "rendered (nodeGroup s' ! i) \<longleftrightarrow>
            node_id (nodes s' ! i) \<in> set (expandedNodes s') \<and> \<not> el_hidden (nodeGroup t ! i)"
      if i: "i < length (nodes t)" for i
      using el [OF i] unplaced_nth_id(1) [OF u i] by (auto simp: rendered_iff)
    with r show ?thesis by blast
  qed
  let ?t = "categoryChanged c False s"
  have wt: "wellFormed ?t" using wf by (rule categoryChanged_wellFormed)
  from step [OF wt] obtain s' where
    r: "continueFoodJourney ?t = Inr s'"
    and el: "\<forall>i<length (nodes ?t).
               rendered (nodeGroup s' ! i) \<longleftrightarrow>
                 node_id (nodes s' ! i) \<in> set (expandedNodes s') \<and> \<not> el_hidden (nodeGroup ?t ! i)"
    by blast
  have "\<not> rendered (nodeGroup s' ! i)"
    if "i < length (nodes s)" "node_group (nodes s ! i) = c" for i
    using el that categoryChanged_hidden [OF wf that] by simp
  with r step [OF wf] show ?thesis by blast
qed

text \<open>C5, witness: the two-node page after the first click, and the category \<^verbatim>\<open>core_flow\<close>.\<close>

theorem stage_transition_keeps_hidden_nodes_hidden_witness:
  "wellFormed twoExpanded \<and>
   (\<exists>s'. continueFoodJourney twoExpanded = Inr s' \<and>
            (\<forall>i<length (nodes twoExpanded).
               rendered (nodeGroup s' ! i) \<longleftrightarrow>
                 node_id (nodes s' ! i) \<in> set (expandedNodes s') \<and>
                 \<not> el_hidden (nodeGroup twoExpanded ! i))) \<and>
   (\<exists>s'. continueFoodJourney (categoryChanged ''core_flow'' False twoExpanded) = Inr s' \<and>
            (\<forall>i<length (nodes twoExpanded).
               node_group (nodes twoExpanded ! i) = ''core_flow'' \<longrightarrow>
               \<not> rendered (nodeGroup s' ! i)))"
proof -
  have h1: "wellFormed twoExpanded"
    by (simp add: model_defs Let_def cong: let_weak_cong bindE_weak_cong)
  from stage_transition_keeps_hidden_nodes_hidden [OF h1, of "''core_flow''"] h1
  show ?thesis by blast
qed

text \<open>
  C6 (as stated, refuted). In the three-node dataset, with the journey under way and
  \<^verbatim>\<open>production\<close> in focus, a background click leaves the selection, the details panel,
  the pin of the focused node, the stopped animations and the mind-map connectors as
  they were.
\<close>

theorem background_click_mid_journey_counterexample:
  "observe currentlySelectedNodeData
     (run [click 0, click 1, svgClick False] (loaded threeNodes threeLinks)) = Inr (Some 1) \<and>
   observe detailsPanel
     (run [click 0, click 1, svgClick False] (loaded threeNodes threeLinks)) =
     Inr (PanelNode ''fa-question-circle'' ''production'' []) \<and>
   observe (pinOf 1)
     (run [click 0, click 1, svgClick False] (loaded threeNodes threeLinks)) =
     Inr (Some 500, Some 400) \<and>
   observe (placeOf 1)
     (run [click 0, click 1, svgClick False] (loaded threeNodes threeLinks)) =
     Inr (Some 230, Some 400) \<and>
   observe (map le_animated \<circ> linkElems)
     (run [click 0, click 1, svgClick False] (loaded threeNodes threeLinks)) =
     Inr [False, False] \<and>
   observe (map con_type \<circ> mindMapLinks)
     (run [click 0, click 1, svgClick False] (loaded threeNodes threeLinks)) =
     Inr [''flow'', ''flow'']"
  by (simp add: model_defs Let_def cong: let_weak_cong bindE_weak_cong)

text \<open>
  C6 (amended). A background click does nothing when its default was prevented. While
  the journey is under way and \<^verbatim>\<open>expandedNodes\<close> has fewer entries than there are nodes,
  it is a step of the journey and keeps the selection, the details panel, the mind-map
  and example elements, the link animations and the pins. Otherwise it clears the
  selection, resets the details panel, removes the mind-map and example elements,
  clears every pin, restores the positions of \<^verbatim>\<open>setInitialPositions\<close>, shows every node
  that is not filtered out and restarts the link animations.
\<close>

theorem background_click_reverts_or_continues:
  assumes wf: "wellFormed s"
  shows
   "svgClick True s = Inr s \<and>
    (isJourneyExpanded s \<and> length (expandedNodes s) < length (nodes s) \<longrightarrow>
       svgClick False s = continueFoodJourney s \<and>
       (\<exists>s'. svgClick False s = Inr s' \<and>
          currentlySelectedNodeData s' = currentlySelectedNodeData s \<and>
          currentlySelectedNodeElement s' = currentlySelectedNodeElement s \<and>
          detailsPanel s' = detailsPanel s \<and> mindMapLinks s' = mindMapLinks s \<and>
          exampleNodes s' = exampleNodes s \<and> treeLinks s' = treeLinks s \<and>
          linkElems s' = linkElems s \<and>
          map node_fx (nodes s') = map node_fx (nodes s) \<and>
          map node_fy (nodes s') = map node_fy (nodes s))) \<and>
    (\<not> (isJourneyExpanded s \<and> length (expandedNodes s) < length (nodes s)) \<longrightarrow>
       (\<exists>s'. svgClick False s = Inr s' \<and>
          currentlySelectedNodeData s' = None \<and> currentlySelectedNodeElement s' = None \<and>
          detailsPanel s' = PanelDefault \<and>
          mindMapLinks s' = [] \<and> exampleNodes s' = [] \<and> treeLinks s' = [] \<and>
          nodes s' = fst (initialLayout (randoms s) (randomCount s) (width s) (height s)
                            (map unpin (nodes s))) \<and>
          (\<forall>i<length (nodes s).
              node_fx (nodes s' ! i) = None \<and> node_fy (nodes s' ! i) = None \<and>
              el_transform (nodeGroup s' ! i) = (node_x (nodes s' ! i), node_y (nodes s' ! i)) \<and>
              el_hidden (nodeGroup s' ! i) = el_hidden (nodeGroup s ! i) \<and>
              el_opacity (nodeGroup s' ! i) = (if el_hidden (nodeGroup s ! i) then 0 else 1) \<and>
              el_pointer (nodeGroup s' ! i) = (\<not> el_hidden (nodeGroup s ! i))) \<and>
          (\<forall>i<length (links s).
              le_animated (linkElems s' ! i) \<and>
              le_animation (linkElems s' ! i) = animationOf (links s ! i))))"
proof (intro conjI impI)
  show "svgClick True s = Inr s" by (simp add: svgClick_def)
next
  assume j: "isJourneyExpanded s \<and> length (expandedNodes s) < length (nodes s)"
  then show c: "svgClick False s = continueFoodJourney s" by (simp add: svgClick_def)
  from continueFoodJourney_fields [OF wellFormed_resolved [OF wf] wellFormed_length [OF wf]]
  obtain s' where
    r: "continueFoodJourney s = Inr s'"
    and u: "map unplaced (nodes s') = map unplaced (nodes s)"
    and keep: "currentlySelectedNodeData s' = currentlySelectedNodeData s"
      "currentlySelectedNodeElement s' = currentlySelectedNodeElement s"
      "detailsPanel s' = detailsPanel s" "mindMapLinks s' = mindMapLinks s"
      "exampleNodes s' = exampleNodes s" "treeLinks s' = treeLinks s"
      "linkElems s' = linkElems s"
    by blast
  have fx: "map node_fx (nodes s') = map node_fx (nodes s)"
  proof -
    have "map (node_fx \<circ> unplaced) (nodes s') = map (node_fx \<circ> unplaced) (nodes s)"
      using u by (metis map_map)
    then show ?thesis by (simp add: o_def)
  qed
  have fy: "map node_fy (nodes s') = map node_fy (nodes s)"
  proof -
    have "map (node_fy \<circ> unplaced) (nodes s') = map (node_fy \<circ> unplaced) (nodes s)"
      using u by (metis map_map)
    then show ?thesis by (simp add: o_def)
  qed
  from r c keep fx fy
  show "\<exists>s'. svgClick False s = Inr s' \<and>
          currentlySelectedNodeData s' = currentlySelectedNodeData s \<and>
          currentlySelectedNodeElement s' = currentlySelectedNodeElement s \<and>
          detailsPanel s' = detailsPanel s \<and> mindMapLinks s' = mindMapLinks s \<and>
          exampleNodes s' = exampleNodes s \<and> treeLinks s' = treeLinks s \<and>
          linkElems s' = linkElems s \<and>
          map node_fx (nodes s') = map node_fx (nodes s) \<and>
          map node_fy (nodes s') = map node_fy (nodes s)"
    by simp
next
  assume base: "\<not> (isJourneyExpanded s \<and> length (expandedNodes s) < length (nodes s))"
  let ?P = "initialLayout (randoms s) (randomCount s) (width s) (height s) (map unpin (nodes s))"
  let ?g = "map resetElem (map2 moveTo (nodeGroup (clearSelection s)) (fst ?P))"
  let ?s' = "updateAnimationState False
                  ((clearSelection s)\<lparr>detailsPanel := PanelDefault,
                      nodes := fst ?P, randomCount := snd ?P, nodeGroup := ?g,
                      mindMapLinks := [], treeLinks := [], exampleNodes := []\<rparr>)"
  have r: "svgClick False s = Inr ?s'"
    using svgClick_base [OF wellFormed_resolved [OF wf] base] .
  have u: "map unplaced (fst ?P) = map unplaced (map unpin (nodes s))"
    by (rule unplaced_initialLayout)
  have lP: "length (fst ?P) = length (nodes s)"
    using unplaced_length [OF u] by simp
  have lg: "length (nodeGroup s) = length (nodes s)" using wf by (rule wellFormed_length)
  have le: "length (linkElems s) = length (links s)" using wf by (simp add: wellFormed_def)
  have nodesfacts: "node_fx (fst ?P ! i) = None \<and> node_fy (fst ?P ! i) = None"
    if i: "i < length (nodes s)" for i
  proof -
    have i': "i < length (map unpin (nodes s))" using i by simp
    from unplaced_nth_id(3) [OF u i'] unplaced_nth_id(4) [OF u i'] i show ?thesis by simp
  qed
  have elfacts: "el_transform (?g ! i) = (node_x (fst ?P ! i), node_y (fst ?P ! i)) \<and>
              el_hidden (?g ! i) = el_hidden (nodeGroup s ! i) \<and>
              el_opacity (?g ! i) = (if el_hidden (nodeGroup s ! i) then 0 else 1) \<and>
              el_pointer (?g ! i) = (\<not> el_hidden (nodeGroup s ! i))"
    if i: "i < length (nodes s)" for i
    using i lP lg by (simp add: resetElem_def moveTo_def clearSelection_hidden)
  have anim: "le_animated (linkElems ?s' ! i) \<and>
              le_animation (linkElems ?s' ! i) = animationOf (links s ! i)"
    if i: "i < length (links s)" for i
    using i le by (simp add: updateAnimationState_def animate_def)
  have sel: "currentlySelectedNodeData ?s' = None"
    using clearSelection_data [OF wellFormed_data [OF wf]] by simp
  show "\<exists>s'. svgClick False s = Inr s' \<and>
          currentlySelectedNodeData s' = None \<and> currentlySelectedNodeElement s' = None \<and>
          detailsPanel s' = PanelDefault \<and>
          mindMapLinks s' = [] \<and> exampleNodes s' = [] \<and> treeLinks s' = [] \<and>
          nodes s' = fst ?P \<and>
          (\<forall>i<length (nodes s).
              node_fx (nodes s' ! i) = None \<and> node_fy (nodes s' ! i) = None \<and>
              el_transform (nodeGroup s' ! i) = (node_x (nodes s' ! i), node_y (nodes s' ! i)) \<and>
              el_hidden (nodeGroup s' ! i) = el_hidden (nodeGroup s ! i) \<and>
              el_opacity (nodeGroup s' ! i) = (if el_hidden (nodeGroup s ! i) then 0 else 1) \<and>
              el_pointer (nodeGroup s' ! i) = (\<not> el_hidden (nodeGroup s ! i))) \<and>
          (\<forall>i<length (links s).
              le_animated (linkElems s' ! i) \<and>
              le_animation (linkElems s' ! i) = animationOf (links s ! i))"
  proof (intro exI [of _ ?s'] conjI allI impI)
    show "svgClick False s = Inr ?s'" by (rule r)
    show "currentlySelectedNodeData ?s' = None" by (rule sel)
  qed (use nodesfacts elfacts anim in \<open>simp_all\<close>)
qed

text \<open>
  C6, witness: the three-node page in focus with the journey under way, and the
  two-node page in focus with every node shown.
\<close>

theorem background_click_reverts_or_continues_witness:
  "wellFormed threeFocused \<and>
   isJourneyExpanded threeFocused \<and>
   length (expandedNodes threeFocused) < length (nodes threeFocused) \<and>
   svgClick False threeFocused = continueFoodJourney threeFocused \<and>
   wellFormed twoFocused \<and>
   \<not> (isJourneyExpanded twoFocused \<and> length (expandedNodes twoFocused) < length (nodes twoFocused)) \<and>
   (\<exists>s'. svgClick False twoFocused = Inr s' \<and>
      currentlySelectedNodeData s' = None \<and> currentlySelectedNodeElement s' = None \<and>
      detailsPanel s' = PanelDefault \<and>
      mindMapLinks s' = [] \<and> exampleNodes s' = [] \<and> treeLinks s' = [])"
proof -
  have h1: "wellFormed threeFocused"
    by (simp add: model_defs Let_def cong: let_weak_cong bindE_weak_cong)
  have h2: "isJourneyExpanded threeFocused \<and>
            length (expandedNodes threeFocused) < length (nodes threeFocused)"
    by (simp add: model_defs Let_def cong: let_weak_cong bindE_weak_cong)
  have h3: "wellFormed twoFocused"
    by (simp add: model_defs Let_def cong: let_weak_cong bindE_weak_cong)
  have h4: "\<not> (isJourneyExpanded twoFocused \<and>
               length (expandedNodes twoFocused) < length (nodes twoFocused))"
    by (simp add: model_defs Let_def cong: let_weak_cong bindE_weak_cong)
  from background_click_reverts_or_continues [OF h1] h2
  have a: "svgClick False threeFocused = continueFoodJourney threeFocused" by blast
  from background_click_reverts_or_continues [OF h3] h4
  have b: "\<exists>s'. svgClick False twoFocused = Inr s' \<and>
      currentlySelectedNodeData s' = None \<and> currentlySelectedNodeElement s' = None \<and>
      detailsPanel s' = PanelDefault \<and>
      mindMapLinks s' = [] \<and> exampleNodes s' = [] \<and> treeLinks s' = []" by blast
  from h1 h2 h3 h4 a b show ?thesis by blast
qed

text \<open>
  C7 (the code departs from it). For the links \<^verbatim>\<open>a\<close> to \<^verbatim>\<open>b\<close> and \<^verbatim>\<open>b\<close> to \<^verbatim>\<open>a\<close>, both of
  type \<^verbatim>\<open>flow\<close>, one connector is drawn. Clicked on \<^verbatim>\<open>b\<close> (both nodes are visible, and
  a second click on \<^verbatim>\<open>b\<close> draws the same), the connector runs from \<^verbatim>\<open>a\<close> to \<^verbatim>\<open>a\<close>;
  clicked on \<^verbatim>\<open>a\<close>, it runs from \<^verbatim>\<open>a\<close> to \<^verbatim>\<open>b\<close>.
\<close>

theorem focus_connector_of_incoming_link:
  "observe visibleIds (run [click 1] (loaded pairNodes pairLinks)) = Inr [''a'', ''b''] \<and>
   observe mindMapLinks (run [click 1, click 1] (loaded pairNodes pairLinks)) =
     Inr [\<lparr> con_source = 0, con_target = 0, con_type = ''flow'',
            con_from = (Some 850, Some 400), con_to = (Some 850, Some 400) \<rparr>] \<and>
   observe mindMapLinks (run [click 0, click 0] (loaded pairNodes pairLinks)) =
     Inr [\<lparr> con_source = 0, con_target = 1, con_type = ''flow'',
            con_from = (Some 500, Some 400), con_to = (Some 850, Some 400) \<rparr>]"
  by (simp add: model_defs Let_def cong: let_weak_cong bindE_weak_cong)

text \<open>
  C8 (as stated, refuted). With two nodes of id \<^verbatim>\<open>environment\<close> the map resolves the id
  to the later one, the first-match lookup to the earlier one, and both are drawn when
  the page has loaded.
\<close>

theorem duplicate_id_counterexample:
  "nodeMap dupNodes ''environment'' = Some 2 \<and>
   findNode (hasId ''environment'') dupNodes = Some 0 \<and>
   observe visibleIds (loaded dupNodes dupLinks) =
     Inr [''environment'', ''production'', ''environment''] \<and>
   observe (map node_label \<circ> nodes) (loaded dupNodes dupLinks) =
     Inr [''first'', ''production'', ''second'']"
  by (simp add: model_defs Let_def cong: let_weak_cong bindE_weak_cong)

text \<open>
  C8 (amended). Duplicate ids do not stop the load. The id map resolves an id to the last
  node that has it, and so does every link endpoint; the first-match lookup
  \<^verbatim>\<open>nodes.find\<close> of the layout code resolves it to the first node that has it; and
  every node of the array, an earlier duplicate included, has its own element.
\<close>

theorem duplicate_ids_map_takes_last_find_takes_first:
  "(nodeMap ns k = Some i \<longleftrightarrow>
      i < length ns \<and> node_id (ns ! i) = k \<and>
      (\<forall>j. i < j \<and> j < length ns \<longrightarrow> node_id (ns ! j) \<noteq> k)) \<and>
   link_source (resolveLink (nodeMap ns) l) = nodeMap ns (link_source l) \<and>
   link_target (resolveLink (nodeMap ns) l) = nodeMap ns (link_target l) \<and>
   (findNode (hasId k) ns = Some i' \<longleftrightarrow>
      i' < length ns \<and> node_id (ns ! i') = k \<and> (\<forall>j<i'. node_id (ns ! j) \<noteq> k)) \<and>
   (list_all resolved (processLinks ns ls) \<longrightarrow>
      (\<exists>s. initPage rnd w h ns ls = Inr s \<and> length (nodeGroup s) = length ns \<and>
           map node_id (nodes s) = map node_id ns \<and> links s = processLinks ns ls))"
proof (intro conjI impI)
  show "nodeMap ns k = Some i \<longleftrightarrow>
      i < length ns \<and> node_id (ns ! i) = k \<and>
      (\<forall>j. i < j \<and> j < length ns \<longrightarrow> node_id (ns ! j) \<noteq> k)"
    by (rule nodeMap_Some_iff)
  show "findNode (hasId k) ns = Some i' \<longleftrightarrow>
      i' < length ns \<and> node_id (ns ! i') = k \<and> (\<forall>j<i'. node_id (ns ! j) \<noteq> k)"
    by (rule findNode_Some_iff)
  show "link_source (resolveLink (nodeMap ns) l) = nodeMap ns (link_source l)"
    by (simp add: resolveLink_def)
  show "link_target (resolveLink (nodeMap ns) l) = nodeMap ns (link_target l)"
    by (simp add: resolveLink_def)
next
  assume "list_all resolved (processLinks ns ls)"
  from initPage_result [OF this, of rnd w h] obtain s where
    "initPage rnd w h ns ls = Inr s" "wellFormed s"
    "map node_id (nodes s) = map node_id ns" "links s = processLinks ns ls" by blast
  moreover from this have "length (nodeGroup s) = length ns"
    by (auto simp: wellFormed_def dest: map_eq_imp_length_eq)
  ultimately show "\<exists>s. initPage rnd w h ns ls = Inr s \<and> length (nodeGroup s) = length ns \<and>
           map node_id (nodes s) = map node_id ns \<and> links s = processLinks ns ls"
    by blast
qed

text \<open>C8, witness: the dataset with two nodes of id \<^verbatim>\<open>environment\<close>.\<close>

theorem duplicate_ids_map_takes_last_find_takes_first_witness:
  "nodeMap dupNodes ''environment'' = Some 2 \<and>
   findNode (hasId ''environment'') dupNodes = Some 0 \<and>
   list_all resolved (processLinks dupNodes dupLinks) \<and>
   (\<exists>s. loaded dupNodes dupLinks = Inr s \<and> length (nodeGroup s) = length dupNodes \<and>
        map node_id (nodes s) = map node_id dupNodes \<and> links s = processLinks dupNodes dupLinks)"
proof -
  note inst = duplicate_ids_map_takes_last_find_takes_first
    [of dupNodes "''environment''" 2 _ 0 dupLinks halfRandom 1000 800]
  have lastOne: "2 < length dupNodes \<and> node_id (dupNodes ! 2) = ''environment'' \<and>
      (\<forall>j. 2 < j \<and> j < length dupNodes \<longrightarrow> node_id (dupNodes ! j) \<noteq> ''environment'')"
    by (auto simp: dupNodes_def mkNode_def)
  have firstOne: "0 < length dupNodes \<and> node_id (dupNodes ! 0) = ''environment'' \<and>
      (\<forall>j<0. node_id (dupNodes ! j) \<noteq> ''environment'')"
    by (simp add: dupNodes_def mkNode_def)
  have res: "list_all resolved (processLinks dupNodes dupLinks)"
    by (simp add: model_defs)
  from inst lastOne have a: "nodeMap dupNodes ''environment'' = Some 2" by blast
  from inst firstOne have b: "findNode (hasId ''environment'') dupNodes = Some 0" by blast
  from inst res have c: "\<exists>s. loaded dupNodes dupLinks = Inr s \<and>
        length (nodeGroup s) = length dupNodes \<and>
        map node_id (nodes s) = map node_id dupNodes \<and> links s = processLinks dupNodes dupLinks"
    unfolding loaded_def by blast
  from a b res c show ?thesis by blast
qed

text \<open>
  C9 (as stated, refuted). With \<^verbatim>\<open>production\<close> in focus at the centre and \<^verbatim>\<open>environment\<close>
  pinned to its left, a resize to 1200 by 900 keeps both pins and moves both elements
  away from them.
\<close>

theorem resize_in_focus_counterexample:
  "observe (placeOf 1) (run [click 0, click 1] (loaded twoNodes twoLinks)) =
     Inr (Some 500, Some 400) \<and>
   observe (placeOf 1) (run [click 0, click 1, resize 1200 900] (loaded twoNodes twoLinks)) =
     Inr (Some 735, Some 450) \<and>
   observe (pinOf 1) (run [click 0, click 1, resize 1200 900] (loaded twoNodes twoLinks)) =
     Inr (Some 500, Some 400) \<and>
   observe (placeOf 0) (run [click 0, click 1] (loaded twoNodes twoLinks)) =
     Inr (Some 150, Some 400) \<and>
   observe (placeOf 0) (run [click 0, click 1, resize 1200 900] (loaded twoNodes twoLinks)) =
     Inr (Some 375, Some 720)"
  by (simp add: model_defs Let_def cong: let_weak_cong bindE_weak_cong)

text \<open>
  C9 (amended). A resize leaves the pins \<^verbatim>\<open>fx\<close> and \<^verbatim>\<open>fy\<close> of every node as they
  are, but gives every node, pinned or not, the position \<^verbatim>\<open>positionNodes\<close> computes for
  the new size and moves its element there.
\<close>

theorem resize_keeps_pins_but_moves_every_node:
  assumes wf: "wellFormed s"
  shows "\<exists>s'. resize newWidth newHeight s = Inr s' \<and>
           nodes s' = positionNodes (nodes s) newWidth newHeight \<and>
           map node_fx (nodes s') = map node_fx (nodes s) \<and>
           map node_fy (nodes s') = map node_fy (nodes s) \<and>
           (\<forall>i<length (nodes s).
              el_transform (nodeGroup s' ! i) = (node_x (nodes s' ! i), node_y (nodes s' ! i)))"
proof -
  let ?ns = "positionNodes (nodes s) newWidth newHeight"
  let ?s' = "s\<lparr>nodes := ?ns, nodeGroup := map2 moveTo (nodeGroup s) ?ns\<rparr>"
  have u: "map unplaced ?ns = map unplaced (nodes s)" by (rule unplaced_positionNodes)
  have lns: "length ?ns = length (nodes s)" using u by (rule unplaced_length)
  have r: "resize newWidth newHeight s = Inr ?s'"
    using wellFormed_resolved [OF wf] by (simp add: resize_def updatePositions_def)
  have fx: "map node_fx ?ns = map node_fx (nodes s)"
  proof -
    have "map (node_fx \<circ> unplaced) ?ns = map (node_fx \<circ> unplaced) (nodes s)"
      using u by (metis map_map)
    then show ?thesis by (simp add: o_def)
  qed
  have fy: "map node_fy ?ns = map node_fy (nodes s)"
  proof -
    have "map (node_fy \<circ> unplaced) ?ns = map (node_fy \<circ> unplaced) (nodes s)"
      using u by (metis map_map)
    then show ?thesis by (simp add: o_def)
  qed
  have tr: "el_transform (nodeGroup ?s' ! i) = (node_x (nodes ?s' ! i), node_y (nodes ?s' ! i))"
    if "i < length (nodes s)" for i
    using that lns wellFormed_length [OF wf] by (simp add: moveTo_def)
  from r fx fy tr show ?thesis by auto
qed

text \<open>C9, witness: the two-node page with \<^verbatim>\<open>production\<close> in focus.\<close>

theorem resize_keeps_pins_but_moves_every_node_witness:
  "wellFormed twoFocused \<and>
   (\<exists>s'. resize 1200 900 twoFocused = Inr s' \<and>
           nodes s' = positionNodes (nodes twoFocused) 1200 900 \<and>
           map node_fx (nodes s') = map node_fx (nodes twoFocused) \<and>
           map node_fy (nodes s') = map node_fy (nodes twoFocused) \<and>
           (\<forall>i<length (nodes twoFocused).
              el_transform (nodeGroup s' ! i) = (node_x (nodes s' ! i), node_y (nodes s' ! i))))"
proof -
  have h1: "wellFormed twoFocused"
    by (simp add: model_defs Let_def cong: let_weak_cong bindE_weak_cong)
  from resize_keeps_pins_but_moves_every_node [OF h1, of 1200 900] h1 show ?thesis by blast
qed




end
